theory Spec2Isabelle
  imports Complex_Main "HOL-Library.Log_Nat"
begin

section \<open>Python strings\<close>

text \<open>
  A Python \<open>str\<close> is a \<open>string\<close>; a character is its code point, so the model covers
  the code points up to U+00FF. \<open>str.isalnum\<close> and the white space of \<open>str.strip\<close> are
  spelled out for ASCII; above U+007F the classification is Unicode's, which the
  model takes as the two parameters \<open>isalnum_hi\<close> and \<open>isspace_hi\<close> of the world.
\<close>

definition ascii_alnum :: "char \<Rightarrow> bool" where
  "ascii_alnum c =
     (let n = (of_char c :: nat)
      in (48 \<le> n \<and> n \<le> 57) \<or> (65 \<le> n \<and> n \<le> 90) \<or> (97 \<le> n \<and> n \<le> 122))"

definition ascii_space :: "char \<Rightarrow> bool" where
  "ascii_space c =
     (let n = (of_char c :: nat) in (9 \<le> n \<and> n \<le> 13) \<or> (28 \<le> n \<and> n \<le> 32))"

definition isalnum :: "(char \<Rightarrow> bool) \<Rightarrow> char \<Rightarrow> bool" where
  "isalnum hi c = (if (of_char c :: nat) < 128 then ascii_alnum c else hi c)"

definition isspace :: "(char \<Rightarrow> bool) \<Rightarrow> char \<Rightarrow> bool" where
  "isspace hi c = (if (of_char c :: nat) < 128 then ascii_space c else hi c)"

text \<open>\<open>s.split(sep)\<close> for a one-character separator: never the empty list.\<close>

fun split_on :: "char \<Rightarrow> string \<Rightarrow> string list" where
  "split_on sep [] = [[]]"
| "split_on sep (c # cs) =
     (if c = sep then [] # split_on sep cs
      else (case split_on sep cs of
              [] \<Rightarrow> [[c]]
            | seg # segs \<Rightarrow> (c # seg) # segs))"

text \<open>\<open>s.strip()\<close>: white space off both ends.\<close>

definition strip :: "(char \<Rightarrow> bool) \<Rightarrow> string \<Rightarrow> string" where
  "strip sp s = rev (dropWhile sp (rev (dropWhile sp s)))"

text \<open>The decimal text of an integer, as \<open>str\<close> and an f-string give it.\<close>

definition digit_char :: "nat \<Rightarrow> char" where
  "digit_char d = ''0123456789'' ! d"

fun str_nat :: "nat \<Rightarrow> string" where
  "str_nat n =
     (if n < 10 then [digit_char n] else str_nat (n div 10) @ [digit_char (n mod 10)])"

declare str_nat.simps [simp del]

definition str_int :: "int \<Rightarrow> string" where
  "str_int i = (if i < 0 then CHR ''-'' # str_nat (nat (- i)) else str_nat (nat i))"

text \<open>
  A Python \<open>float\<close> is an IEEE binary64 number; the model takes it as the rational number
  it denotes. \<open>int(x)\<close> truncates towards zero; \<open>f"{x:.0f}"\<close> rounds to the nearest
  integer, ties to even, and keeps the sign of a negative number that rounds to zero.
\<close>

definition py_int :: "rat \<Rightarrow> int" where
  "py_int q = (if q < 0 then - \<lfloor>- q\<rfloor> else \<lfloor>q\<rfloor>)"

definition round_half_even :: "rat \<Rightarrow> int" where
  "round_half_even q =
     (let f = \<lfloor>q\<rfloor>; d = q - of_int f
      in if d < 1 / 2 then f else if 1 / 2 < d then f + 1 else if even f then f else f + 1)"

text \<open>
  Every operation on floats ends by rounding the exact result to the nearest binary64
  number, ties to the even significand. \<open>ilog2 x\<close> is the exponent of a positive \<open>x\<close>,
  the integer \<open>k\<close> with \<open>2 ^ k \<le> x < 2 ^ (k + 1)\<close>; the significand has 53 bits, so
  \<open>x\<close> is rounded to a multiple of \<open>2 ^ (k - 52)\<close>. The exponent has no bound in the
  model: there is no overflow and there are no subnormal numbers. The quotients and
  products of the program reach neither on integers of 64 bits, which row labels, row
  counts and byte counts are.
\<close>

definition ilog2 :: "rat \<Rightarrow> int" where
  "ilog2 x = (if 1 \<le> x then bitlen \<lfloor>x\<rfloor> - 1 else - bitlen (\<lceil>1 / x\<rceil> - 1))"

definition float_round :: "rat \<Rightarrow> rat" where
  "float_round x =
     (if x = 0 then 0
      else let e = ilog2 \<bar>x\<bar> - 52 in of_int (round_half_even (x / 2 powi e)) * 2 powi e)"

text \<open>\<open>a / b\<close> on two ints, for \<open>b\<close> other than 0, and \<open>x * y\<close> on two floats.\<close>

definition py_truediv :: "int \<Rightarrow> int \<Rightarrow> rat" where
  "py_truediv a b = float_round (of_int a / of_int b)"

definition py_mul :: "rat \<Rightarrow> rat \<Rightarrow> rat" where
  "py_mul x y = float_round (x * y)"

definition format_0f :: "rat \<Rightarrow> string" where
  "format_0f q =
     (if q < 0 then CHR ''-'' # str_nat (nat (round_half_even (- q)))
      else str_nat (nat (round_half_even q)))"

text \<open>\<open>os.path.basename\<close> and \<open>os.path.join\<close> of two components, on POSIX paths.\<close>

definition basename :: "string \<Rightarrow> string" where
  "basename p = last (split_on CHR ''/'' p)"

definition path_join :: "string \<Rightarrow> string \<Rightarrow> string" where
  "path_join a b =
     (if b \<noteq> [] \<and> hd b = CHR ''/'' then b
      else if a = [] \<or> last a = CHR ''/'' then a @ b
      else a @ ''/'' @ b)"

definition DOWNLOAD_FOLDER_UI :: string where
  "DOWNLOAD_FOLDER_UI = ''downloads_colab_ui_async''"

section \<open>The session, the world around it, and what a run does to them\<close>

text \<open>
  Everything the code does to the outside is kept, in order, in the \<open>trace\<close> of the
  session: the log entries it inserts, the notifications it flashes, the values it
  assigns to \<open>session['csv_overall_progress']\<close>, the HTTP requests it issues, the files
  it has written completely, and the \<open>send_file\<close> calls it makes.
\<close>

datatype event =
    Logged string
  | Flash string string
  | SetOverall rat
  | HttpGet string
  | Saved string
  | SendFile string string

text \<open>
  The keys of the Flask session that the three functions read or write. A key that
  may be missing is an option.
\<close>

record session =
  logs :: "string list option"
  session_active :: "bool option"
  upload_progress :: "rat option"
  csv_overall_progress :: "rat option"
  csv_current_item_progress :: "rat option"
  modified :: bool
  trace :: "event list"

text \<open>
  What \<open>pd.read_csv\<close> returns. A cell is a \<open>str\<close>, a missing value (the float NaN), or
  another value (a number or a boolean), of which the code observes only that it is
  not a \<open>str\<close> and the text \<open>str()\<close> gives for it. Every row carries its index label:
  \<open>iterrows()\<close> yields the label, not the position. \<open>read_csv\<close> labels the rows
  0, 1, 2, ... unless the data rows have more fields than the header, in which case
  the leading field becomes the label. A label is an integer or something on which
  \<open>index + 1\<close> raises TypeError (a string, the tuple of a MultiIndex), kept as the name of
  its type, which is all the error message shows of it; floating point labels are not
  modelled.
\<close>

datatype cell = Str string | NaN | Other string

datatype label = IntLabel int | OtherLabel string

record frame =
  columns :: "string list"
  rows :: "(label \<times> cell list) list"

datatype fetch_outcome = Downloaded | RequestException string | OtherException string

datatype send_outcome =
    Sent
  | MediaEmptyError
  | UserNotParticipantError
  | FloodWaitError int
  | SendException string string

text \<open>
  The world answers every call the code makes outside itself. An answer may depend on
  when the call is made: the clock and the client are asked at a time, which is the
  number of events so far; the n-th download and the n-th \<open>send_file\<close> each have their
  own answer.
  \<^item> \<open>strftime\<close>, \<open>time_time\<close>: \<open>time.strftime("%Y-%m-%d %H:%M:%S")\<close> and
    \<open>int(time.time())\<close>;
  \<^item> \<open>read_csv\<close>: \<open>pd.read_csv(BytesIO(bytes), delimiter=';')\<close>, \<open>Inl\<close> the text of the
    exception it raises;
  \<^item> \<open>download\<close>: how \<open>requests.get\<close> of the URL, \<open>raise_for_status\<close> and the loop that
    writes the body to the file end: well, with a \<open>requests.exceptions.RequestException\<close>,
    or with any other exception; an exception comes with its text;
  \<^item> \<open>send_file\<close>: the calls \<open>(current, total)\<close> it makes to the progress callback, and
    how it ends; \<open>SendException\<close> carries the exception's type name and text;
  \<^item> \<open>telethon_client\<close>: \<open>None\<close> when the global is unset, otherwise what
    \<open>is_connected()\<close> returns.
\<close>

record world =
  strftime :: "nat \<Rightarrow> string"
  time_time :: "nat \<Rightarrow> int"
  read_csv :: "string \<Rightarrow> string + frame"
  download :: "nat \<Rightarrow> string \<Rightarrow> fetch_outcome"
  send_file :: "nat \<Rightarrow> string \<Rightarrow> string \<Rightarrow> (int \<times> int) list \<times> send_outcome"
  telethon_client :: "nat \<Rightarrow> bool option"
  isalnum_hi :: "char \<Rightarrow> bool"
  isspace_hi :: "char \<Rightarrow> bool"

fun overall_history :: "event list \<Rightarrow> rat list" where
  "overall_history [] = []"
| "overall_history (SetOverall v # es) = v # overall_history es"
| "overall_history (_ # es) = overall_history es"

fun requested :: "event list \<Rightarrow> string list" where
  "requested [] = []"
| "requested (HttpGet u # es) = u # requested es"
| "requested (_ # es) = requested es"

fun saved :: "event list \<Rightarrow> string list" where
  "saved [] = []"
| "saved (Saved p # es) = p # saved es"
| "saved (_ # es) = saved es"

fun uploads :: "event list \<Rightarrow> (string \<times> string) list" where
  "uploads [] = []"
| "uploads (SendFile p c # es) = (p, c) # uploads es"
| "uploads (_ # es) = uploads es"

fun flashed :: "event list \<Rightarrow> (string \<times> string) list" where
  "flashed [] = []"
| "flashed (Flash m c # es) = (m, c) # flashed es"
| "flashed (_ # es) = flashed es"

definition emit :: "event \<Rightarrow> session \<Rightarrow> session" where
  "emit e s = s\<lparr>trace := trace s @ [e]\<rparr>"

definition flash :: "string \<Rightarrow> string \<Rightarrow> session \<Rightarrow> session" where
  "flash message category s = emit (Flash message category) s"

section \<open>add_log\<close>

definition add_log :: "world \<Rightarrow> string \<Rightarrow> session \<Rightarrow> session" where
  "add_log w message s =
     (let timestamp = strftime w (length (trace s));
          log_entry = ''['' @ timestamp @ ''] '' @ message;
          old = (case logs s of None \<Rightarrow> [] | Some l \<Rightarrow> l)
      in emit (Logged log_entry) (s\<lparr>logs := Some (take 100 (log_entry # old)), modified := True\<rparr>))"

definition session_logs :: "session \<Rightarrow> string list" where
  "session_logs s = (case logs s of None \<Rightarrow> [] | Some l \<Rightarrow> l)"

section \<open>_upload_file_async\<close>

text \<open>
  \<open>session.get('session_active') and telethon_client and telethon_client.is_connected()\<close>:
  the test that opens \<open>_upload_file_async\<close> (negated there) and \<open>_run_csv_process_async\<close>.
\<close>

definition is_client_ready :: "world \<Rightarrow> session \<Rightarrow> bool" where
  "is_client_ready w s =
     (session_active s = Some True \<and> telethon_client w (length (trace s)) = Some True)"

definition progress_callback_sync :: "world \<Rightarrow> string \<Rightarrow> int \<times> int \<Rightarrow> session \<Rightarrow> session" where
  "progress_callback_sync w filepath ct s =
     (case ct of (current, total_size) \<Rightarrow>
        if 0 < total_size then
          let percent = py_mul (py_truediv current total_size) 100;
              s1 = s\<lparr>upload_progress := Some percent\<rparr>;
              s2 = (if py_int percent mod 20 = 0 \<and> py_int percent < 100
                    then add_log w (''Upload progress: '' @ format_0f percent @ ''% for ''
                                     @ basename filepath) s1
                    else s1)
          in s2\<lparr>modified := True\<rparr>
        else s)"

definition upload_file_async :: "world \<Rightarrow> string \<Rightarrow> string \<Rightarrow> session \<Rightarrow> bool \<times> session" where
  "upload_file_async w filepath caption s =
     (if \<not> is_client_ready w s then
        (False, flash ''Upload Error: Not connected.'' ''danger''
                  (add_log w ''Upload Error: Not connected.'' s))
      else
        let s1 = s\<lparr>upload_progress := Some 0, modified := True\<rparr>;
            s2 = add_log w (''Async Upload: Starting '' @ [CHR 0x27] @ basename filepath
                             @ [CHR 0x27] @ '' to Saved Messages...'') s1;
            answer = send_file w (length (uploads (trace s2))) filepath caption;
            s3 = fold (progress_callback_sync w filepath) (fst answer)
                   (emit (SendFile filepath caption) s2)
        in case snd answer of
             Sent \<Rightarrow>
               (True, flash (''Successfully uploaded '' @ basename filepath) ''success''
                        ((add_log w (''Async Upload: Completed: '' @ basename filepath) s3)
                           \<lparr>upload_progress := Some 100\<rparr>))
           | MediaEmptyError \<Rightarrow>
               (False, (flash (''Upload Error: File '' @ [CHR 0x27] @ basename filepath
                                @ [CHR 0x27] @ '' is empty.'') ''danger''
                          (add_log w (''Upload Error (Telegram): File '' @ [CHR 0x27]
                                       @ basename filepath @ [CHR 0x27] @ '' is empty.'') s3))
                         \<lparr>upload_progress := Some (- 1)\<rparr>)
           | UserNotParticipantError \<Rightarrow>
               (False, (flash ''Upload Error: UserNotParticipantError.'' ''danger''
                          (add_log w ''Upload Error (Telegram): UserNotParticipantError.'' s3))
                         \<lparr>upload_progress := Some (- 1)\<rparr>)
           | FloodWaitError seconds \<Rightarrow>
               (False, (flash (''Upload Error (Telegram Flood Wait): Please wait ''
                                @ str_int seconds @ ''s.'') ''warning''
                          (add_log w (''Upload Error (Telegram Flood Wait): ''
                                       @ str_int seconds @ ''s'') s3))
                         \<lparr>upload_progress := Some (- 1)\<rparr>)
           | SendException type_name e_upload \<Rightarrow>
               (False, (flash (''Upload failed: '' @ e_upload) ''danger''
                          (add_log w (''Async Upload failed: '' @ type_name @ '' - ''
                                       @ e_upload) s3))
                         \<lparr>upload_progress := Some (- 1)\<rparr>))"

section \<open>_run_csv_process_async\<close>

text \<open>
  \<open>row_data.get(name)\<close>: the cell of the row under the column of that name, \<open>None\<close>
  when the frame has no such column. \<open>read_csv\<close> fills a short row with missing values.
\<close>

definition row_get :: "string list \<Rightarrow> cell list \<Rightarrow> string \<Rightarrow> cell option" where
  "row_get cols row_data name =
     map_of (zip cols (row_data @ replicate (length cols - length row_data) NaN)) name"

text \<open>\<open>str(x)\<close> of a cell: NaN prints as \<open>nan\<close>.\<close>

fun py_str :: "cell \<Rightarrow> string" where
  "py_str (Str t) = t"
| "py_str NaN = ''nan''"
| "py_str (Other t) = t"

text \<open>\<open>str(row_data.get('caption', ''))\<close>\<close>

definition caption_csv :: "string list \<Rightarrow> cell list \<Rightarrow> string" where
  "caption_csv cols row_data =
     py_str (case row_get cols row_data ''caption'' of None \<Rightarrow> Str [] | Some c \<Rightarrow> c)"

text \<open>
  Lines 210 to 213: the last segment of the URL, up to its first question mark, with
  only the alphanumeric characters and \<open>.\<close>, \<open>_\<close>, \<open>-\<close> kept, stripped; when nothing is
  left, a name made of the time and the row's index.
\<close>

definition keep_char :: "world \<Rightarrow> char \<Rightarrow> bool" where
  "keep_char w c =
     (isalnum (isalnum_hi w) c \<or> c = CHR ''.'' \<or> c = CHR ''_'' \<or> c = CHR ''-'')"

definition kept_name :: "world \<Rightarrow> string \<Rightarrow> string" where
  "kept_name w url_from_row =
     strip (isspace (isspace_hi w))
       (filter (keep_char w) (hd (split_on CHR ''?'' (last (split_on CHR ''/'' url_from_row)))))"

definition filename_from_csv_url :: "world \<Rightarrow> int \<Rightarrow> int \<Rightarrow> string \<Rightarrow> string" where
  "filename_from_csv_url w now index url_from_row =
     (let name = kept_name w url_from_row
      in if name = [] then ''csv_dl_'' @ str_int now @ ''_'' @ str_int index else name)"

text \<open>
  \<open>url_from_row = row_data.get('link')\<close> with the test of line 205: the URL of a row that
  is processed, \<open>None\<close> for a row that is skipped because the cell is not a \<open>str\<close> or is
  blank once stripped.
\<close>

definition url_to_process :: "world \<Rightarrow> string list \<Rightarrow> cell list \<Rightarrow> string option" where
  "url_to_process w cols row_data =
     (case row_get cols row_data ''link'' of
        Some (Str url_from_row) \<Rightarrow>
          if strip (isspace (isspace_hi w)) url_from_row = [] then None else Some url_from_row
      | _ \<Rightarrow> None)"

text \<open>
  \<open>(item_num / total_csv_items) * 100\<close> with \<open>item_num = index + 1\<close>: the quotient of the
  two ints is a float, and so is its product with 100.
\<close>

definition item_progress :: "nat \<Rightarrow> int \<Rightarrow> rat" where
  "item_progress total_csv_items index =
     py_mul (py_truediv (index + 1) (int total_csv_items)) 100"

definition set_overall :: "rat \<Rightarrow> session \<Rightarrow> session" where
  "set_overall v s = emit (SetOverall v) (s\<lparr>csv_overall_progress := Some v\<rparr>)"

text \<open>
  The exceptions the outer \<open>try\<close> of \<open>_run_csv_process_async\<close> tells apart. An exception
  leaves the session as it was when it was raised.
\<close>

datatype exn = EmptyDataError string | Exception string

text \<open>
  The body of the \<open>for\<close> loop, lines 200 to 239, on one \<open>(index, row_data)\<close> with the
  session and \<open>successful_uploads\<close>. \<open>index + 1\<close> and the division by \<open>total_csv_items\<close>
  stand outside the inner \<open>try\<close>: on a label that is not a number the first raises
  TypeError, and on a total of 0 the second raises ZeroDivisionError (the caller never
  passes 0); either leaves the loop.
\<close>

fun csv_item ::
  "world \<Rightarrow> string list \<Rightarrow> nat \<Rightarrow> bool \<Rightarrow> label \<times> cell list \<Rightarrow> session \<times> nat
     \<Rightarrow> exn \<times> session + session \<times> nat" where
  "csv_item w cols total_csv_items ready (OtherLabel type_name, row_data) (s, successful_uploads) =
     Inl (Exception (''can only concatenate '' @ type_name @ '' (not '' @ [CHR 0x22]
                      @ ''int'' @ [CHR 0x22] @ '') to '' @ type_name), s)"
| "csv_item w cols total_csv_items ready (IntLabel i, row_data) (s, successful_uploads) =
     (if total_csv_items = 0 then Inl (Exception ''division by zero'', s)
      else
      let item_num = i + 1;
          of_total = str_int item_num @ ''/'' @ str_int (int total_csv_items);
          s1 = (set_overall (item_progress total_csv_items i) s)\<lparr>modified := True\<rparr>
      in (case url_to_process w cols row_data of
            None \<Rightarrow>
              Inr (add_log w (''CSV Item '' @ of_total
                     @ '': Skipped (empty or invalid URL in '' @ [CHR 0x27] @ ''link''
                     @ [CHR 0x27] @ '' column).'') s1, successful_uploads)
          | Some url_from_row \<Rightarrow>
              (let s2 = add_log w (''CSV Item '' @ of_total @ '': Processing URL ''
                                    @ [CHR 0x27] @ url_from_row @ [CHR 0x27]) s1;
                   name = filename_from_csv_url w (time_time w (length (trace s2))) i
                            url_from_row;
                   dl_item_path = path_join DOWNLOAD_FOLDER_UI name;
                   s3 = add_log w (''CSV Item '' @ str_int item_num @ '': Downloading ''
                                    @ [CHR 0x27] @ name @ [CHR 0x27] @ ''...'') s2;
                   outcome = download w (length (requested (trace s3))) url_from_row;
                   s4 = emit (HttpGet url_from_row) s3
               in (case outcome of
                     Downloaded \<Rightarrow>
                       (let s5 = add_log w (''CSV Item '' @ str_int item_num
                                   @ '': Downloaded '' @ [CHR 0x27] @ name @ [CHR 0x27]
                                   @ ''.'') (emit (Saved dl_item_path) s4)
                        in if ready then
                             (let s6 = add_log w (''CSV Item '' @ str_int item_num
                                         @ '': Attempting upload of '' @ [CHR 0x27] @ name
                                         @ [CHR 0x27] @ ''...'') s5;
                                  upload = upload_file_async w dl_item_path
                                             (caption_csv cols row_data) s6
                              in Inr (snd upload,
                                      if fst upload then successful_uploads + 1
                                      else successful_uploads))
                           else
                             Inr (add_log w (''CSV Item '' @ str_int item_num
                                    @ '': Skipped upload for '' @ [CHR 0x27] @ name
                                    @ [CHR 0x27] @ '' (not connected to Telegram).'') s5,
                                  successful_uploads))
                   | RequestException e_dl \<Rightarrow>
                       Inr (flash (''CSV Item '' @ str_int item_num @ '' Download failed: ''
                                    @ e_dl) ''warning''
                              (add_log w (''CSV Item '' @ str_int item_num
                                 @ '': Download failed for '' @ [CHR 0x27] @ url_from_row
                                 @ [CHR 0x27] @ '' - '' @ e_dl) s4),
                            successful_uploads)
                   | OtherException e_proc \<Rightarrow>
                       Inr (flash (''CSV Item '' @ str_int item_num @ '' Error: '' @ e_proc)
                              ''warning''
                              (add_log w (''CSV Item '' @ str_int item_num
                                 @ '': Error processing '' @ [CHR 0x27] @ url_from_row
                                 @ [CHR 0x27] @ '' - '' @ e_proc) s4),
                            successful_uploads)))))"

declare csv_item.simps [simp del]

text \<open>\<open>for index, row_data in dataframe.iterrows()\<close>: the first exception ends the loop.\<close>

fun csv_loop ::
  "world \<Rightarrow> string list \<Rightarrow> nat \<Rightarrow> bool \<Rightarrow> (label \<times> cell list) list \<Rightarrow> session \<times> nat
     \<Rightarrow> exn \<times> session + session \<times> nat" where
  "csv_loop w cols total_csv_items ready [] st = Inr st"
| "csv_loop w cols total_csv_items ready (indexed_row # rest) st =
     (case csv_item w cols total_csv_items ready indexed_row st of
        Inl raised \<Rightarrow> Inl raised
      | Inr st' \<Rightarrow> csv_loop w cols total_csv_items ready rest st')"

definition run_csv_process_async :: "world \<Rightarrow> string \<Rightarrow> session \<Rightarrow> bool \<times> session" where
  "run_csv_process_async w csv_file_bytes s0 =
     (let ready = is_client_ready w s0;
          s1 = (if \<not> ready then
                  flash ''Not connected to Telegram. Files will only be downloaded.'' ''info''
                    (add_log w
                       ''CSV Info: Not connected to Telegram. Files will only be downloaded.'' s0)
                else s0);
          s2 = (set_overall 0 s1)\<lparr>csv_current_item_progress := Some 0, modified := True\<rparr>
      in case read_csv w csv_file_bytes of
           Inl e_parse \<Rightarrow>
             (False, set_overall (- 1)
                       (flash (''CSV Parsing Error: '' @ e_parse) ''danger''
                          (add_log w (''CSV Parsing Error: Could not parse CSV. ''
                             @ ''Check format/delimiter. Details: '' @ e_parse) s2)))
         | Inr dataframe \<Rightarrow>
             if ''link'' \<notin> set (columns dataframe) then
               (False, set_overall (- 1)
                         (flash (''CSV Error: CSV file must contain a '' @ [CHR 0x27] @ ''link''
                                  @ [CHR 0x27] @ '' column.'') ''danger''
                            (add_log w (''CSV Error: CSV file must contain a '' @ [CHR 0x27]
                               @ ''link'' @ [CHR 0x27] @ '' column (lowercase).'') s2)))
             else
               let total_csv_items = length (rows dataframe)
               in if total_csv_items = 0 then
                    (True, flash ''CSV Info: File is empty.'' ''info''
                             (add_log w ''CSV Info: The CSV file is empty (no data rows).'' s2))
                  else
                    let s3 = add_log w (''Starting CSV processing for ''
                                         @ str_int (int total_csv_items) @ '' items...'') s2
                    in (case csv_loop w (columns dataframe) total_csv_items ready
                               (rows dataframe) (s3, 0) of
                         Inr (s4, successful_uploads) \<Rightarrow>
                           (True, set_overall 100
                              (flash (''CSV processing completed. ''
                                 @ str_int (int successful_uploads) @ ''/''
                                 @ str_int (int total_csv_items)
                                 @ '' items successfully uploaded (if connected).'') ''success''
                                 (add_log w (''CSV processing completed. ''
                                    @ str_int (int successful_uploads) @ '' of ''
                                    @ str_int (int total_csv_items)
                                    @ '' items processed for potential upload.'') s4)))
                       | Inl (EmptyDataError e, s4) \<Rightarrow>
                           (False, set_overall (- 1)
                              (flash ''CSV Error: File empty or invalid.'' ''danger''
                                 (add_log w
                                    ''CSV Error: File empty/invalid (pandas EmptyDataError).''
                                    s4)))
                       | Inl (Exception e_csv_main, s4) \<Rightarrow>
                           (False, set_overall (- 1)
                              (flash (''CSV processing failed: '' @ e_csv_main) ''danger''
                                 (add_log w (''CSV processing failed: '' @ e_csv_main) s4)))))"


section \<open>Notions used to state the properties\<close>

fun is_int_label :: "label \<Rightarrow> bool" where
  "is_int_label (IntLabel i) = True"
| "is_int_label (OtherLabel type_name) = False"

text \<open>Every row label is an integer: \<open>index + 1\<close> raises nowhere.\<close>

definition int_labels :: "frame \<Rightarrow> bool" where
  "int_labels df = list_all (\<lambda>indexed_row. is_int_label (fst indexed_row)) (rows df)"

text \<open>The index \<open>read_csv\<close> gives by default: row k, counted from 0, has the label k.\<close>

definition default_index :: "frame \<Rightarrow> bool" where
  "default_index df = (map fst (rows df) = map (\<lambda>k. IntLabel (int k)) [0..<length (rows df)])"

text \<open>The URLs of the rows that are not skipped, in row order.\<close>

definition urls_to_process :: "world \<Rightarrow> frame \<Rightarrow> string list" where
  "urls_to_process w df =
     List.map_filter (\<lambda>indexed_row. url_to_process w (columns df) (snd indexed_row)) (rows df)"

text \<open>The messages flashed with the category \<open>info\<close>.\<close>

fun info_flashes :: "event list \<Rightarrow> string list" where
  "info_flashes [] = []"
| "info_flashes (Flash message category # es) =
     (if category = ''info'' then message # info_flashes es else info_flashes es)"
| "info_flashes (_ # es) = info_flashes es"

text \<open>
  The value the overall progress takes when the loop reaches a row with this label:
  on a label that is not a number the run is aborted and the handler writes -1.
\<close>

fun label_progress :: "nat \<Rightarrow> label \<Rightarrow> rat" where
  "label_progress total_csv_items (IntLabel i) = item_progress total_csv_items i"
| "label_progress total_csv_items (OtherLabel type_name) = - 1"

text \<open>
  What a run comes to, read off the answer of \<open>read_csv\<close> alone: whether it returns
  \<open>True\<close>, the values it assigns to the overall progress, in order, and the URLs it
  requests, in order. The rows reached are those before the first label that is not a
  number.
\<close>

definition run_outline :: "world \<Rightarrow> string \<Rightarrow> bool \<times> rat list \<times> string list" where
  "run_outline w csv_file_bytes =
     (case read_csv w csv_file_bytes of
        Inl e_parse \<Rightarrow> (False, [0, - 1], [])
      | Inr df \<Rightarrow>
          if ''link'' \<notin> set (columns df) then (False, [0, - 1], [])
          else if rows df = [] then (True, [0], [])
          else
            let reached = takeWhile (\<lambda>indexed_row. is_int_label (fst indexed_row)) (rows df)
            in (int_labels df,
                [0] @ map (\<lambda>indexed_row. label_progress (length (rows df)) (fst indexed_row))
                        reached
                  @ [if int_labels df then 100 else - 1],
                List.map_filter (\<lambda>indexed_row. url_to_process w (columns df) (snd indexed_row))
                  reached))"

section \<open>Example sessions, worlds and manifests\<close>

definition fresh_session :: session where
  "fresh_session =
     \<lparr>logs = None, session_active = None, upload_progress = None,
      csv_overall_progress = None, csv_current_item_progress = None, modified = False,
      trace = []\<rparr>"

text \<open>
  A world with a stopped clock, a connected client, downloads and uploads that all
  succeed, and \<open>read_csv\<close> returning the given frame.
\<close>

definition calm_world :: "frame \<Rightarrow> world" where
  "calm_world df =
     \<lparr>strftime = (\<lambda>t. ''2024-01-01 00:00:00''), time_time = (\<lambda>t. 1700),
      read_csv = (\<lambda>bytes. Inr df), download = (\<lambda>n url. Downloaded),
      send_file = (\<lambda>n path caption. ([], Sent)), telethon_client = (\<lambda>t. Some True),
      isalnum_hi = (\<lambda>c. False), isspace_hi = (\<lambda>c. False)\<rparr>"

definition connected_session :: session where
  "connected_session = fresh_session\<lparr>session_active := Some True\<rparr>"

text \<open>
  \<open>link;caption\<close> with two rows; with three rows of which the second has an empty
  link field, which \<open>read_csv\<close> gives as a missing value; and with three rows of which
  the second has a link field of two spaces, which \<open>read_csv\<close> gives as that string.
\<close>

definition two_rows :: frame where
  "two_rows =
     \<lparr>columns = [''link'', ''caption''],
      rows = [(IntLabel 0, [Str ''http://h/a.txt'', Str ''first'']),
              (IntLabel 1, [Str ''http://h/b.txt'', Str ''second''])]\<rparr>"

definition three_rows :: frame where
  "three_rows =
     \<lparr>columns = [''link'', ''caption''],
      rows = [(IntLabel 0, [Str ''http://h/a.txt'', Str ''first'']),
              (IntLabel 1, [NaN, Str ''second'']),
              (IntLabel 2, [Str ''http://h/c.txt'', Str ''third''])]\<rparr>"

definition blank_second :: frame where
  "blank_second =
     \<lparr>columns = [''link'', ''caption''],
      rows = [(IntLabel 0, [Str ''http://h/a.txt'', Str ''first'']),
              (IntLabel 1, [Str ''  '', Str ''second'']),
              (IntLabel 2, [Str ''http://h/c.txt'', Str ''third''])]\<rparr>"

text \<open>A header and no data row; and a header that spells the column \<open>Link\<close>.\<close>

definition header_only :: frame where
  "header_only = \<lparr>columns = [''link'', ''caption''], rows = []\<rparr>"

definition capital_link :: frame where
  "capital_link =
     \<lparr>columns = [''Link'', ''caption''],
      rows = [(IntLabel 0, [Str ''http://h/a.txt'', Str ''first''])]\<rparr>"

text \<open>
  The frame of \<open>link;caption\<close> followed by \<open>4;http://h/a.txt;first\<close> and
  \<open>8;http://h/b.txt;second\<close>: the data rows have one field more than the header, so
  the leading field is the index.
\<close>

definition leading_index :: frame where
  "leading_index =
     \<lparr>columns = [''link'', ''caption''],
      rows = [(IntLabel 4, [Str ''http://h/a.txt'', Str ''first'']),
              (IntLabel 8, [Str ''http://h/b.txt'', Str ''second''])]\<rparr>"

text \<open>
  The frame of \<open>link;caption\<close> followed by \<open>http://h/a.txt;7\<close> and \<open>http://h/b.txt;\<close>:
  a caption that is a number, and a caption that is missing. A numeric column with a
  missing value is a column of floats, so the number is 7.0.
\<close>

definition odd_captions :: frame where
  "odd_captions =
     \<lparr>columns = [''link'', ''caption''],
      rows = [(IntLabel 0, [Str ''http://h/a.txt'', Other ''7.0'']),
              (IntLabel 1, [Str ''http://h/b.txt'', NaN])]\<rparr>"

text \<open>The bytes of these manifests: lines end in a line feed.\<close>

definition csv_lines :: "string list \<Rightarrow> string" where
  "csv_lines ls = concat (map (\<lambda>l. l @ [CHR 0x0A]) ls)"

definition two_rows_csv :: string where
  "two_rows_csv = csv_lines [''link;caption'', ''http://h/a.txt;first'', ''http://h/b.txt;second'']"

definition three_rows_csv :: string where
  "three_rows_csv =
     csv_lines [''link;caption'', ''http://h/a.txt;first'', '';second'', ''http://h/c.txt;third'']"

definition blank_second_csv :: string where
  "blank_second_csv =
     csv_lines [''link;caption'', ''http://h/a.txt;first'', ''  ;second'', ''http://h/c.txt;third'']"

definition header_only_csv :: string where
  "header_only_csv = csv_lines [''link;caption'']"

definition capital_link_csv :: string where
  "capital_link_csv = csv_lines [''Link;caption'', ''http://h/a.txt;first'']"

definition leading_index_csv :: string where
  "leading_index_csv =
     csv_lines [''link;caption'', ''4;http://h/a.txt;first'', ''8;http://h/b.txt;second'']"

definition odd_captions_csv :: string where
  "odd_captions_csv = csv_lines [''link;caption'', ''http://h/a.txt;7'', ''http://h/b.txt;'']"

text \<open>
  The frame of \<open>link;caption\<close> followed by \<open>http://h/a.txt;first;\<close>: the data row ends in a
  delimiter, so it has one field more than the header and the URL becomes the index.
\<close>

definition trailing_delimiter :: frame where
  "trailing_delimiter =
     \<lparr>columns = [''link'', ''caption''],
      rows = [(OtherLabel ''str'', [Str ''first'', NaN])]\<rparr>"

definition trailing_delimiter_csv :: string where
  "trailing_delimiter_csv = csv_lines [''link;caption'', ''http://h/a.txt;first;'']"

text \<open>The same world, except that the first download ends in HTTP 404.\<close>

definition first_404 :: "frame \<Rightarrow> world" where
  "first_404 df =
     (calm_world df)\<lparr>download :=
        (\<lambda>n url. if n = 0 then RequestException ''404 Client Error'' else Downloaded)\<rparr>"

section \<open>Rounding to a float\<close>

text \<open>
  \<open>ilog2\<close> is the exponent; rounding is monotone and leaves 0, 1 and 100 as they are.
\<close>

lemma ilog2_bounds:
  assumes "0 < x"
  shows "2 powi (ilog2 x) \<le> x" and "x < 2 powi (ilog2 x + 1)"
proof -
  have "2 powi (ilog2 x) \<le> x \<and> x < 2 powi (ilog2 x + 1)"
  proof (cases "1 \<le> x")
    case True
    define n where "n = \<lfloor>x\<rfloor>"
    have n1: "1 \<le> n" using True by (simp add: n_def)
    then have pos: "0 < n" by simp
    have b1: "1 \<le> bitlen n" using pos bitlen_eq_zero_iff [of n] bitlen_nonneg [of n] by linarith
    from bitlen_bounds [OF pos]
    have lo: "2 ^ nat (bitlen n - 1) \<le> n" and hi: "n < 2 ^ nat (bitlen n)" by simp_all
    have il: "ilog2 x = bitlen n - 1" using True by (simp add: ilog2_def n_def)
    have p1: "(2::rat) powi (bitlen n - 1) = of_int (2 ^ nat (bitlen n - 1))"
      using b1 by (simp add: power_int_def)
    have p2: "(2::rat) powi (bitlen n) = of_int (2 ^ nat (bitlen n))"
      using b1 by (simp add: power_int_def)
    have "rat_of_int (2 ^ nat (bitlen n - 1)) \<le> of_int n" using lo by (simp only: of_int_le_iff)
    also have "\<dots> \<le> x" by (simp add: n_def)
    finally have A: "2 powi (ilog2 x) \<le> x" by (simp add: il p1)
    have "n + 1 \<le> 2 ^ nat (bitlen n)" using hi by simp
    then have "rat_of_int (n + 1) \<le> of_int (2 ^ nat (bitlen n))" by (simp only: of_int_le_iff)
    moreover have "x < of_int (n + 1)" unfolding n_def by linarith
    ultimately have B: "x < 2 powi (ilog2 x + 1)" by (simp add: il p2)
    from A B show ?thesis by simp
  next
    case False
    then have x1: "x < 1" by simp
    define c where "c = \<lceil>1 / x\<rceil>"
    define n where "n = c - 1"
    have y1: "1 < 1 / x" using assms x1 by simp
    have cy: "1 / x \<le> of_int c" by (simp add: c_def)
    have yc: "of_int n < 1 / x" unfolding n_def c_def by linarith
    have "1 < rat_of_int c" using y1 cy by linarith
    then have "1 < c" by simp
    then have pos: "0 < n" by (simp add: n_def)
    have b1: "1 \<le> bitlen n" using pos bitlen_eq_zero_iff [of n] bitlen_nonneg [of n] by linarith
    from bitlen_bounds [OF pos]
    have lo: "2 ^ nat (bitlen n - 1) \<le> n" and hi: "n < 2 ^ nat (bitlen n)" by simp_all
    have il: "ilog2 x = - bitlen n" using False by (simp add: ilog2_def n_def c_def)
    have p1: "(2::rat) powi (- bitlen n) = 1 / of_int (2 ^ nat (bitlen n))"
      using b1 by (simp add: power_int_def field_simps)
    have p2: "(2::rat) powi (1 - bitlen n) = 1 / of_int (2 ^ nat (bitlen n - 1))"
      using b1 by (simp add: power_int_def field_simps)
    have "c \<le> 2 ^ nat (bitlen n)" using hi by (simp add: n_def)
    then have "rat_of_int c \<le> of_int (2 ^ nat (bitlen n))" by (simp only: of_int_le_iff)
    with cy have "1 / x \<le> of_int (2 ^ nat (bitlen n))" by linarith
    then have A: "2 powi (ilog2 x) \<le> x"
      using assms by (simp add: il p1 field_simps)
    have "rat_of_int (2 ^ nat (bitlen n - 1)) \<le> of_int n" using lo by (simp only: of_int_le_iff)
    with yc have "of_int (2 ^ nat (bitlen n - 1)) < 1 / x" by linarith
    then have "x < 1 / of_int (2 ^ nat (bitlen n - 1))"
      using assms by (simp add: field_simps)
    moreover have "ilog2 x + 1 = 1 - bitlen n" by (simp add: il)
    ultimately have B: "x < 2 powi (ilog2 x + 1)"
      by (simp only: p2)
    from A B show ?thesis by simp
  qed
  then show "2 powi (ilog2 x) \<le> x" and "x < 2 powi (ilog2 x + 1)" by simp_all
qed

lemma ilog2_mono:
  assumes "0 < x" and "x \<le> y"
  shows "ilog2 x \<le> ilog2 y"
proof -
  have "(2::rat) powi (ilog2 x) \<le> x" using ilog2_bounds(1) [OF assms(1)] .
  also have "x \<le> y" by fact
  also have "y < 2 powi (ilog2 y + 1)" using ilog2_bounds(2) [of y] assms by simp
  finally have "(2::rat) powi (ilog2 x) < 2 powi (ilog2 y + 1)" .
  then have "ilog2 x < ilog2 y + 1"
    by (metis not_less power_int_increasing one_le_numeral)
  then show ?thesis by simp
qed

lemma round_half_even_of_int: "round_half_even (of_int m) = m"
  by (simp add: round_half_even_def)

lemma round_half_even_mono:
  assumes "q \<le> r"
  shows "round_half_even q \<le> round_half_even r"
proof (cases "\<lfloor>q\<rfloor> = \<lfloor>r\<rfloor>")
  case True
  then show ?thesis
    using assms unfolding round_half_even_def Let_def by auto
next
  case False
  have "\<lfloor>q\<rfloor> \<le> \<lfloor>r\<rfloor>" using assms by (rule floor_mono)
  with False have lt: "\<lfloor>q\<rfloor> + 1 \<le> \<lfloor>r\<rfloor>" by simp
  have "round_half_even q \<le> \<lfloor>q\<rfloor> + 1"
    unfolding round_half_even_def Let_def by auto
  moreover have "\<lfloor>r\<rfloor> \<le> round_half_even r"
    unfolding round_half_even_def Let_def by auto
  ultimately show ?thesis using lt by linarith
qed

lemma float_round_nonneg: "0 \<le> x \<Longrightarrow> 0 \<le> float_round x"
proof -
  assume x: "0 \<le> x"
  have "0 \<le> round_half_even (x / 2 powi e)" for e
  proof -
    have "0 \<le> x / 2 powi e" using x by simp
    then have "round_half_even 0 \<le> round_half_even (x / 2 powi e)"
      by (rule round_half_even_mono)
    then show ?thesis by (simp add: round_half_even_def)
  qed
  then show ?thesis by (simp add: float_round_def Let_def)
qed

lemma two_powi_add: "(2::rat) powi (a + b) = 2 powi a * 2 powi b"
  by (rule power_int_add) simp

lemma float_round_mono:
  assumes "0 \<le> x" and "x \<le> y"
  shows "float_round x \<le> float_round y"
proof (cases "x = 0")
  case True
  then show ?thesis using float_round_nonneg [of y] assms by (simp add: float_round_def)
next
  case False
  then have x: "0 < x" and y: "0 < y" using assms by simp_all
  define ex where "ex = ilog2 x - 52"
  define ey where "ey = ilog2 y - 52"
  have fx: "float_round x = of_int (round_half_even (x / 2 powi ex)) * 2 powi ex"
    using x by (simp add: float_round_def Let_def ex_def)
  have fy: "float_round y = of_int (round_half_even (y / 2 powi ey)) * 2 powi ey"
    using y by (simp add: float_round_def Let_def ey_def)
  have le: "ex \<le> ey" using ilog2_mono [OF x assms(2)] by (simp add: ex_def ey_def)
  show ?thesis
  proof (cases "ex = ey")
    case True
    have "x / 2 powi ey \<le> y / 2 powi ey" using assms by (simp add: divide_right_mono)
    then have "round_half_even (x / 2 powi ey) \<le> round_half_even (y / 2 powi ey)"
      by (rule round_half_even_mono)
    then have "rat_of_int (round_half_even (x / 2 powi ey)) \<le> of_int (round_half_even (y / 2 powi ey))"
      by (simp only: of_int_le_iff)
    then show ?thesis unfolding fx fy True by (simp add: mult_right_mono)
  next
    case False
    with le have lt: "ex + 1 \<le> ey" by simp
    have "ilog2 x + 1 = 53 + ex" by (simp add: ex_def)
    then have "(2::rat) powi (ilog2 x + 1) = 2 powi 53 * 2 powi ex"
      by (simp only: two_powi_add)
    moreover have "x < 2 powi (ilog2 x + 1)" using ilog2_bounds(2) [OF x] .
    ultimately have "x < 2 powi 53 * 2 powi ex" by simp
    then have "x / 2 powi ex \<le> of_int (2 ^ 53)" by (simp add: field_simps)
    then have "round_half_even (x / 2 powi ex) \<le> round_half_even (of_int (2 ^ 53))"
      by (rule round_half_even_mono)
    then have "round_half_even (x / 2 powi ex) \<le> 2 ^ 53" by (simp only: round_half_even_of_int)
    then have "rat_of_int (round_half_even (x / 2 powi ex)) \<le> of_int (2 ^ 53)"
      by (simp only: of_int_le_iff)
    then have "float_round x \<le> of_int (2 ^ 53) * 2 powi ex"
      unfolding fx by (simp add: mult_right_mono)
    also have "\<dots> = of_int (2 ^ 52) * 2 powi (ex + 1)"
      by (simp add: two_powi_add)
    also have "\<dots> \<le> of_int (2 ^ 52) * 2 powi ey"
      using lt by (intro mult_left_mono power_int_increasing) simp_all
    also have "\<dots> \<le> float_round y"
    proof -
      have "2 powi ilog2 y \<le> y" using ilog2_bounds(1) [OF y] .
      moreover have "ilog2 y = 52 + ey" by (simp add: ey_def)
      then have "(2::rat) powi ilog2 y = 2 powi 52 * 2 powi ey"
        by (simp only: two_powi_add)
      ultimately have "2 powi 52 * 2 powi ey \<le> y" by simp
      then have "of_int (2 ^ 52) \<le> y / 2 powi ey" by (simp add: field_simps)
      then have "round_half_even (of_int (2 ^ 52)) \<le> round_half_even (y / 2 powi ey)"
        by (rule round_half_even_mono)
      then have "2 ^ 52 \<le> round_half_even (y / 2 powi ey)" by (simp only: round_half_even_of_int)
      then have "rat_of_int (2 ^ 52) \<le> of_int (round_half_even (y / 2 powi ey))"
        by (simp only: of_int_le_iff)
      then show ?thesis unfolding fy by (simp add: mult_right_mono)
    qed
    finally show ?thesis .
  qed
qed

lemma float_round_simps: "float_round 1 = 1" "float_round 100 = 100"
  by code_simp+

lemma item_progress_range:
  assumes "0 < n" and "0 \<le> i + 1" and "i + 1 \<le> int n"
  shows "0 \<le> item_progress n i" and "item_progress n i \<le> 100"
proof -
  have q: "0 \<le> rat_of_int (i + 1) / of_int (int n)"
    using assms by simp
  have "rat_of_int (i + 1) \<le> of_int (int n)" using assms(3) by (simp only: of_int_le_iff)
  then have q1: "rat_of_int (i + 1) / of_int (int n) \<le> 1"
    using assms(1) by (simp add: divide_le_eq)
  have d0: "0 \<le> py_truediv (i + 1) (int n)"
    unfolding py_truediv_def using q by (rule float_round_nonneg)
  have "py_truediv (i + 1) (int n) \<le> float_round 1"
    unfolding py_truediv_def using q q1 by (rule float_round_mono)
  then have d1: "py_truediv (i + 1) (int n) \<le> 1" by (simp add: float_round_simps)
  have "0 \<le> py_truediv (i + 1) (int n) * 100" using d0 by simp
  then show "0 \<le> item_progress n i"
    unfolding item_progress_def py_mul_def by (rule float_round_nonneg)
  have "py_truediv (i + 1) (int n) * 100 \<le> 100" using d1 by simp
  with d0 have "float_round (py_truediv (i + 1) (int n) * 100) \<le> float_round 100"
    by (intro float_round_mono) simp_all
  then show "item_progress n i \<le> 100"
    by (simp add: item_progress_def py_mul_def float_round_simps)
qed

lemma item_progress_mono:
  assumes "0 < n" and "0 \<le> i + 1" and "i \<le> j"
  shows "item_progress n i \<le> item_progress n j"
proof -
  have q: "0 \<le> rat_of_int (i + 1) / of_int (int n)"
    using assms by simp
  have "rat_of_int (i + 1) \<le> of_int (j + 1)" using assms(3) by simp
  then have "rat_of_int (i + 1) / of_int (int n) \<le> of_int (j + 1) / of_int (int n)"
    using assms(1) by (simp add: divide_right_mono)
  with q have d: "py_truediv (i + 1) (int n) \<le> py_truediv (j + 1) (int n)"
    unfolding py_truediv_def by (rule float_round_mono)
  have d0: "0 \<le> py_truediv (i + 1) (int n)"
    unfolding py_truediv_def using q by (rule float_round_nonneg)
  have "0 \<le> py_truediv (i + 1) (int n) * 100" using d0 by simp
  moreover have "py_truediv (i + 1) (int n) * 100 \<le> py_truediv (j + 1) (int n) * 100"
    using d by simp
  ultimately show ?thesis
    unfolding item_progress_def py_mul_def by (rule float_round_mono)
qed

text \<open>The values of the examples.\<close>

lemma item_progress_simps:
  "item_progress 2 0 = 50" "item_progress 2 1 = 100"
  "item_progress 3 0 = 2345624805922133 / 70368744177664"
  "item_progress 3 1 = 2345624805922133 / 35184372088832"
  "item_progress 3 2 = 100"
  "item_progress 2 4 = 250" "item_progress 2 8 = 450"
  by code_simp+

section \<open>What each step adds to the trace\<close>

lemma trace_emit: "trace (emit e s) = trace s @ [e]"
  by (simp add: emit_def)

lemma trace_add_log:
  "trace (add_log w m s) = trace s @ [Logged (''['' @ strftime w (length (trace s)) @ ''] '' @ m)]"
  by (simp add: add_log_def Let_def trace_emit)

lemma overall_history_append:
  "overall_history (a @ b) = overall_history a @ overall_history b"
  by (induction a rule: overall_history.induct) simp_all

lemma requested_append: "requested (a @ b) = requested a @ requested b"
  by (induction a rule: requested.induct) simp_all

lemma saved_append: "saved (a @ b) = saved a @ saved b"
  by (induction a rule: saved.induct) simp_all

lemma uploads_append: "uploads (a @ b) = uploads a @ uploads b"
  by (induction a rule: uploads.induct) simp_all

lemma flashed_append: "flashed (a @ b) = flashed a @ flashed b"
  by (induction a rule: flashed.induct) simp_all

lemma info_flashes_append: "info_flashes (a @ b) = info_flashes a @ info_flashes b"
  by (induction a rule: info_flashes.induct) simp_all

lemmas projections_append =
  overall_history_append requested_append saved_append uploads_append flashed_append
  info_flashes_append

lemma trace_flash: "trace (flash m c s) = trace s @ [Flash m c]"
  by (simp add: flash_def trace_emit)

lemma trace_set_overall: "trace (set_overall v s) = trace s @ [SetOverall v]"
  by (simp add: set_overall_def trace_emit)

lemma session_active_emit: "session_active (emit e s) = session_active s"
  by (simp add: emit_def)

lemma session_active_add_log: "session_active (add_log w m s) = session_active s"
  by (simp add: add_log_def Let_def emit_def)

lemma session_active_flash: "session_active (flash m c s) = session_active s"
  by (simp add: flash_def emit_def)

lemma session_active_set_overall: "session_active (set_overall v s) = session_active s"
  by (simp add: set_overall_def emit_def)

lemmas trace_simps = trace_emit trace_add_log trace_flash trace_set_overall

text \<open>The progress callback only writes upload_progress and log entries.\<close>

lemma callback_trace:
  "\<exists>ls. trace (progress_callback_sync w p ct s) = trace s @ map Logged ls"
proof (cases ct)
  case (Pair current total_size)
  show ?thesis
  proof (cases "0 < total_size \<and> py_int (py_mul (py_truediv current total_size) 100) mod 20 = 0
                  \<and> py_int (py_mul (py_truediv current total_size) 100) < 100")
    case True
    then show ?thesis
      using Pair by (auto simp add: progress_callback_sync_def Let_def trace_add_log intro: exI[of _ "[x]" for x])
  next
    case False
    then have "trace (progress_callback_sync w p ct s) = trace s @ map Logged []"
      using Pair by (auto simp add: progress_callback_sync_def Let_def)
    then show ?thesis by blast
  qed
qed


lemma projections_Logged:
  "overall_history (map Logged ls) = []" "requested (map Logged ls) = []"
  "uploads (map Logged ls) = []" "flashed (map Logged ls) = []" "saved (map Logged ls) = []"
  by (induction ls) simp_all

lemma callback_session_active:
  "session_active (progress_callback_sync w p ct s) = session_active s"
  by (cases ct) (simp add: progress_callback_sync_def Let_def session_active_add_log)

text \<open>
  The callback at 199999999999999999 bytes of 1000000000000000000: the quotient is
  rounded to the float 0.2 and its product with 100 to the float 20.0, so the entry for
  20% is written.
\<close>

lemma callback_at_a_fifth:
  "trace (progress_callback_sync w p (199999999999999999, 1000000000000000000) s)
     = trace s
       @ [Logged (''['' @ strftime w (length (trace s)) @ ''] Upload progress: 20% for ''
                   @ basename p)]"
proof -
  have percent: "py_mul (py_truediv 199999999999999999 1000000000000000000) 100 = 20"
    by code_simp
  show ?thesis
    by (simp add: progress_callback_sync_def Let_def percent py_int_def format_0f_def
          round_half_even_def str_nat.simps digit_char_def trace_add_log)
qed

lemma callbacks_trace:
  "\<exists>ls. trace (fold (progress_callback_sync w p) calls s) = trace s @ map Logged ls"
proof (induction calls arbitrary: s)
  case Nil
  show ?case by (rule exI[of _ "[]"]) simp
next
  case (Cons ct calls)
  obtain l1 where l1: "trace (progress_callback_sync w p ct s) = trace s @ map Logged l1"
    using callback_trace by blast
  obtain l2 where l2: "trace (fold (progress_callback_sync w p) calls (progress_callback_sync w p ct s))
      = trace (progress_callback_sync w p ct s) @ map Logged l2"
    using Cons.IH by blast
  have "trace (fold (progress_callback_sync w p) (ct # calls) s) = trace s @ map Logged (l1 @ l2)"
    using l1 l2 by simp
  then show ?case by blast
qed

lemma callbacks_session_active:
  "session_active (fold (progress_callback_sync w p) calls s) = session_active s"
  by (induction calls arbitrary: s) (simp_all add: callback_session_active)

lemma callbacks_projections:
  "overall_history (trace (fold (progress_callback_sync w p) calls s)) = overall_history (trace s)"
  "requested (trace (fold (progress_callback_sync w p) calls s)) = requested (trace s)"
  "uploads (trace (fold (progress_callback_sync w p) calls s)) = uploads (trace s)"
  "flashed (trace (fold (progress_callback_sync w p) calls s)) = flashed (trace s)"
  "saved (trace (fold (progress_callback_sync w p) calls s)) = saved (trace s)"
proof -
  obtain ls where "trace (fold (progress_callback_sync w p) calls s) = trace s @ map Logged ls"
    using callbacks_trace by blast
  then show
    "overall_history (trace (fold (progress_callback_sync w p) calls s)) = overall_history (trace s)"
    "requested (trace (fold (progress_callback_sync w p) calls s)) = requested (trace s)"
    "uploads (trace (fold (progress_callback_sync w p) calls s)) = uploads (trace s)"
    "flashed (trace (fold (progress_callback_sync w p) calls s)) = flashed (trace s)"
    "saved (trace (fold (progress_callback_sync w p) calls s)) = saved (trace s)"
    by (simp_all add: projections_append projections_Logged)
qed

text \<open>What one call of upload_file_async adds to the trace, seen through each projection.\<close>

lemma upload_not_ready:
  "\<not> is_client_ready w s \<Longrightarrow>
     upload_file_async w p c s =
       (False, flash ''Upload Error: Not connected.'' ''danger''
                 (add_log w ''Upload Error: Not connected.'' s))"
  by (simp add: upload_file_async_def)

lemmas upload_unfold =
  upload_file_async_def Let_def trace_simps projections_append callbacks_projections
  session_active_add_log session_active_flash session_active_emit callbacks_session_active

lemma upload_overall_history:
  "overall_history (trace (snd (upload_file_async w p c s))) = overall_history (trace s)"
  by (simp add: upload_unfold split: send_outcome.split)

lemma upload_requested:
  "requested (trace (snd (upload_file_async w p c s))) = requested (trace s)"
  by (simp add: upload_unfold split: send_outcome.split)

lemma upload_saved:
  "saved (trace (snd (upload_file_async w p c s))) = saved (trace s)"
  by (simp add: upload_unfold split: send_outcome.split)

lemma upload_uploads:
  "uploads (trace (snd (upload_file_async w p c s)))
     = uploads (trace s) @ (if is_client_ready w s then [(p, c)] else [])"
  by (simp add: upload_unfold split: send_outcome.split)

lemma upload_session_active:
  "session_active (snd (upload_file_async w p c s)) = session_active s"
  by (simp add: upload_unfold split: send_outcome.split)



lemmas item_unfold =
  csv_item.simps Let_def trace_simps projections_append
  session_active_add_log session_active_flash session_active_emit session_active_set_overall
  upload_overall_history upload_requested upload_saved upload_uploads upload_session_active

lemma csv_item_int:
  "0 < n \<Longrightarrow>
   \<exists>s' k'. csv_item w cols n ready (IntLabel i, row_data) (s, k) = Inr (s', k')
      \<and> overall_history (trace s') = overall_history (trace s) @ [item_progress n i]
      \<and> requested (trace s')
          = requested (trace s) @ (case url_to_process w cols row_data of None \<Rightarrow> [] | Some u \<Rightarrow> [u])
      \<and> session_active s' = session_active s
      \<and> (\<not> ready \<longrightarrow> uploads (trace s') = uploads (trace s)
                     \<and> info_flashes (trace s') = info_flashes (trace s))"
  by (simp add: item_unfold split: option.split fetch_outcome.split)

lemma csv_loop_int:
  "0 < n \<Longrightarrow> list_all (\<lambda>indexed_row. is_int_label (fst indexed_row)) rs \<Longrightarrow>
   \<exists>s' k'. csv_loop w cols n ready rs (s, k) = Inr (s', k')
      \<and> overall_history (trace s')
          = overall_history (trace s) @ map (\<lambda>indexed_row. label_progress n (fst indexed_row)) rs
      \<and> requested (trace s')
          = requested (trace s)
            @ List.map_filter (\<lambda>indexed_row. url_to_process w cols (snd indexed_row)) rs
      \<and> session_active s' = session_active s
      \<and> (\<not> ready \<longrightarrow> uploads (trace s') = uploads (trace s)
                     \<and> info_flashes (trace s') = info_flashes (trace s))"
proof (induction rs arbitrary: s k)
  case Nil
  then show ?case by (simp add: List.map_filter_simps)
next
  case (Cons r rs)
  obtain l row_data where r: "r = (l, row_data)" by (cases r)
  from Cons.prems r obtain i where l: "l = IntLabel i" by (cases l) simp_all
  obtain s1 k1 where step: "csv_item w cols n ready (IntLabel i, row_data) (s, k) = Inr (s1, k1)"
    and h1: "overall_history (trace s1) = overall_history (trace s) @ [item_progress n i]"
    and r1: "requested (trace s1)
          = requested (trace s) @ (case url_to_process w cols row_data of None \<Rightarrow> [] | Some u \<Rightarrow> [u])"
    and a1: "session_active s1 = session_active s"
    and u1: "\<not> ready \<longrightarrow> uploads (trace s1) = uploads (trace s)
                     \<and> info_flashes (trace s1) = info_flashes (trace s)"
    using csv_item_int[OF Cons.prems(1), of w cols ready i row_data s k] by blast
  from Cons.prems have "list_all (\<lambda>indexed_row. is_int_label (fst indexed_row)) rs" by simp
  from Cons.IH[OF Cons.prems(1) this, of s1 k1] obtain s2 k2 where
    loop: "csv_loop w cols n ready rs (s1, k1) = Inr (s2, k2)"
    and h2: "overall_history (trace s2)
          = overall_history (trace s1) @ map (\<lambda>indexed_row. label_progress n (fst indexed_row)) rs"
    and r2: "requested (trace s2)
          = requested (trace s1)
            @ List.map_filter (\<lambda>indexed_row. url_to_process w cols (snd indexed_row)) rs"
    and a2: "session_active s2 = session_active s1"
    and u2: "\<not> ready \<longrightarrow> uploads (trace s2) = uploads (trace s1)
                     \<and> info_flashes (trace s2) = info_flashes (trace s1)"
    by blast
  have "csv_loop w cols n ready (r # rs) (s, k) = Inr (s2, k2)"
    using step loop r l by simp
  moreover have "overall_history (trace s2)
      = overall_history (trace s) @ map (\<lambda>indexed_row. label_progress n (fst indexed_row)) (r # rs)"
    using h1 h2 r l by simp
  moreover have "requested (trace s2)
      = requested (trace s)
        @ List.map_filter (\<lambda>indexed_row. url_to_process w cols (snd indexed_row)) (r # rs)"
    using r1 r2 r l by (simp add: List.map_filter_simps split: option.split)
  moreover have "session_active s2 = session_active s" using a1 a2 by simp
  moreover have "\<not> ready \<longrightarrow> uploads (trace s2) = uploads (trace s)
                     \<and> info_flashes (trace s2) = info_flashes (trace s)"
    using u1 u2 by simp
  ultimately show ?case by blast
qed


text \<open>The files a row and a loop leave in the download folder.\<close>

lemma url_to_process_Some_iff:
  "url_to_process w cols row_data = Some u
     \<longleftrightarrow> row_get cols row_data ''link'' = Some (Str u)
         \<and> strip (isspace (isspace_hi w)) u \<noteq> []"
  by (auto simp add: url_to_process_def split: option.splits cell.splits if_splits)

lemma csv_item_saved:
  "0 < n \<Longrightarrow>
   \<exists>s' k'. csv_item w cols n ready (IntLabel i, row_data) (s, k) = Inr (s', k')
      \<and> saved (trace s')
          = saved (trace s)
            @ (case url_to_process w cols row_data of
                 None \<Rightarrow> []
               | Some u \<Rightarrow>
                   if download w (length (requested (trace s))) u = Downloaded
                   then [path_join DOWNLOAD_FOLDER_UI
                           (filename_from_csv_url w (time_time w (length (trace s) + 2)) i u)]
                   else [])"
  by (simp add: item_unfold split: option.split fetch_outcome.split)

lemma csv_item_download_only:
  assumes "0 < n"
    and "url_to_process w cols row_data = Some u"
    and "download w (length (requested (trace s))) u = Downloaded"
  shows "\<exists>s'. csv_item w cols n False (IntLabel i, row_data) (s, k) = Inr (s', k)
      \<and> requested (trace s') = requested (trace s) @ [u]
      \<and> saved (trace s')
          = saved (trace s)
            @ [path_join DOWNLOAD_FOLDER_UI
                 (filename_from_csv_url w (time_time w (length (trace s) + 2)) i u)]
      \<and> uploads (trace s') = uploads (trace s)
      \<and> flashed (trace s') = flashed (trace s)"
  using assms by (simp add: item_unfold)

lemma csv_loop_saved:
  assumes "0 < n"
    and "list_all (\<lambda>indexed_row. is_int_label (fst indexed_row)) rs"
    and "\<forall>j u. download w j u = Downloaded"
  shows "\<exists>s' k' paths. csv_loop w cols n ready rs (s, k) = Inr (s', k')
      \<and> saved (trace s') = saved (trace s) @ paths
      \<and> list_all2
          (\<lambda>path indexed_row.
             \<exists>now i u. fst indexed_row = IntLabel i
               \<and> url_to_process w cols (snd indexed_row) = Some u
               \<and> path = path_join DOWNLOAD_FOLDER_UI (filename_from_csv_url w now i u))
          paths
          (filter (\<lambda>indexed_row. url_to_process w cols (snd indexed_row) \<noteq> None) rs)"
  using assms(2)
proof (induction rs arbitrary: s k)
  case Nil
  then show ?case by simp
next
  case (Cons r rs)
  let ?P = "\<lambda>path indexed_row.
             \<exists>now i u. fst indexed_row = IntLabel i
               \<and> url_to_process w cols (snd indexed_row) = Some u
               \<and> path = path_join DOWNLOAD_FOLDER_UI (filename_from_csv_url w now i u)"
  let ?Q = "\<lambda>indexed_row. url_to_process w cols (snd indexed_row) \<noteq> None"
  obtain l row_data where r: "r = (l, row_data)" by (cases r)
  from Cons.prems r obtain i where l: "l = IntLabel i" by (cases l) simp_all
  obtain s1 k1 where step: "csv_item w cols n ready (IntLabel i, row_data) (s, k) = Inr (s1, k1)"
    and sv1: "saved (trace s1)
          = saved (trace s)
            @ (case url_to_process w cols row_data of
                 None \<Rightarrow> []
               | Some u \<Rightarrow>
                   if download w (length (requested (trace s))) u = Downloaded
                   then [path_join DOWNLOAD_FOLDER_UI
                           (filename_from_csv_url w (time_time w (length (trace s) + 2)) i u)]
                   else [])"
    using csv_item_saved [OF assms(1), of w cols ready i row_data s k] by blast
  from Cons.prems have "list_all (\<lambda>indexed_row. is_int_label (fst indexed_row)) rs" by simp
  from Cons.IH [OF this, of s1 k1] obtain s2 k2 ps where
    loop: "csv_loop w cols n ready rs (s1, k1) = Inr (s2, k2)"
    and sv2: "saved (trace s2) = saved (trace s1) @ ps"
    and rel: "list_all2 ?P ps (filter ?Q rs)"
    by blast
  have run: "csv_loop w cols n ready (r # rs) (s, k) = Inr (s2, k2)"
    using step loop r l by simp
  show ?case
  proof (cases "url_to_process w cols row_data")
    case None
    have "saved (trace s2) = saved (trace s) @ ps" using sv1 sv2 None by simp
    moreover have "list_all2 ?P ps (filter ?Q (r # rs))" using rel r None by simp
    ultimately show ?thesis using run by blast
  next
    case (Some u)
    define path where
      "path = path_join DOWNLOAD_FOLDER_UI
                (filename_from_csv_url w (time_time w (length (trace s) + 2)) i u)"
    have "saved (trace s2) = saved (trace s) @ (path # ps)"
      using sv1 sv2 Some assms(3) by (simp add: path_def)
    moreover have "?P path r" using r l Some path_def by auto
    then have "list_all2 ?P (path # ps) (filter ?Q (r # rs))" using rel r Some by simp
    ultimately show ?thesis using run by blast
  qed
qed

section \<open>How a run ends\<close>

text \<open>A run over a parsed manifest with a link column, at least one row and integer labels.\<close>

lemma run_completed:
  assumes parse: "read_csv w csv_file_bytes = Inr df"
    and link: "''link'' \<in> set (columns df)"
    and some: "rows df \<noteq> []"
    and ints: "int_labels df"
  shows "fst (run_csv_process_async w csv_file_bytes s)"
    and "csv_overall_progress (snd (run_csv_process_async w csv_file_bytes s)) = Some 100"
    and "overall_history (trace (snd (run_csv_process_async w csv_file_bytes s)))
          = overall_history (trace s) @ [0]
            @ map (\<lambda>indexed_row. label_progress (length (rows df)) (fst indexed_row)) (rows df)
            @ [100]"
    and "requested (trace (snd (run_csv_process_async w csv_file_bytes s)))
          = requested (trace s) @ urls_to_process w df"
    and "\<not> is_client_ready w s \<Longrightarrow>
           uploads (trace (snd (run_csv_process_async w csv_file_bytes s))) = uploads (trace s)"
    and "\<not> is_client_ready w s \<Longrightarrow>
           info_flashes (trace (snd (run_csv_process_async w csv_file_bytes s)))
             = info_flashes (trace s)
               @ [''Not connected to Telegram. Files will only be downloaded.'']"
proof -
  define ready where "ready = is_client_ready w s"
  define s1 where "s1 =
    (if \<not> ready then
       flash ''Not connected to Telegram. Files will only be downloaded.'' ''info''
         (add_log w ''CSV Info: Not connected to Telegram. Files will only be downloaded.'' s)
     else s)"
  define s3 where "s3 =
    add_log w (''Starting CSV processing for '' @ str_int (int (length (rows df))) @ '' items...'')
      ((set_overall 0 s1)\<lparr>csv_current_item_progress := Some 0, modified := True\<rparr>)"
  obtain s4 k where loop:
      "csv_loop w (columns df) (length (rows df)) ready (rows df) (s3, 0) = Inr (s4, k)"
    and h4: "overall_history (trace s4)
          = overall_history (trace s3)
            @ map (\<lambda>indexed_row. label_progress (length (rows df)) (fst indexed_row)) (rows df)"
    and r4: "requested (trace s4)
          = requested (trace s3)
            @ List.map_filter (\<lambda>indexed_row. url_to_process w (columns df) (snd indexed_row))
                (rows df)"
    and u4: "\<not> ready \<longrightarrow> uploads (trace s4) = uploads (trace s3)
                     \<and> info_flashes (trace s4) = info_flashes (trace s3)"
    using csv_loop_int[of "length (rows df)" "rows df" w "columns df" ready s3 0] ints some
    unfolding int_labels_def by blast
  have run: "run_csv_process_async w csv_file_bytes s =
      (True, set_overall 100
         (flash (''CSV processing completed. '' @ str_int (int k) @ ''/''
                  @ str_int (int (length (rows df)))
                  @ '' items successfully uploaded (if connected).'') ''success''
            (add_log w (''CSV processing completed. '' @ str_int (int k) @ '' of ''
                         @ str_int (int (length (rows df)))
                         @ '' items processed for potential upload.'') s4)))"
    using parse link some loop
    unfolding run_csv_process_async_def Let_def s3_def s1_def ready_def
    by simp
  have t3: "overall_history (trace s3) = overall_history (trace s) @ [0]"
      "requested (trace s3) = requested (trace s)"
      "uploads (trace s3) = uploads (trace s)"
      "info_flashes (trace s3)
         = info_flashes (trace s)
           @ (if ready then [] else [''Not connected to Telegram. Files will only be downloaded.''])"
    unfolding s3_def s1_def by (simp_all add: trace_simps projections_append)
  show "fst (run_csv_process_async w csv_file_bytes s)" by (simp add: run)
  show "csv_overall_progress (snd (run_csv_process_async w csv_file_bytes s)) = Some 100"
    by (simp add: run set_overall_def emit_def)
  show "overall_history (trace (snd (run_csv_process_async w csv_file_bytes s)))
          = overall_history (trace s) @ [0]
            @ map (\<lambda>indexed_row. label_progress (length (rows df)) (fst indexed_row)) (rows df)
            @ [100]"
    by (simp add: run trace_simps projections_append h4 t3)
  show "requested (trace (snd (run_csv_process_async w csv_file_bytes s)))
          = requested (trace s) @ urls_to_process w df"
    by (simp add: run trace_simps projections_append r4 t3 urls_to_process_def)
  show "uploads (trace (snd (run_csv_process_async w csv_file_bytes s))) = uploads (trace s)"
    if "\<not> is_client_ready w s"
    using that u4 by (simp add: run trace_simps projections_append t3 ready_def)
  show "info_flashes (trace (snd (run_csv_process_async w csv_file_bytes s)))
             = info_flashes (trace s)
               @ [''Not connected to Telegram. Files will only be downloaded.'']"
    if "\<not> is_client_ready w s"
    using that u4 by (simp add: run trace_simps projections_append t3 ready_def)
qed


lemma run_completed_saved:
  assumes parse: "read_csv w csv_file_bytes = Inr df"
    and link: "''link'' \<in> set (columns df)"
    and some: "rows df \<noteq> []"
    and ints: "int_labels df"
    and fetched: "\<forall>j u. download w j u = Downloaded"
  shows "\<exists>paths. saved (trace (snd (run_csv_process_async w csv_file_bytes s)))
                    = saved (trace s) @ paths
      \<and> list_all2
          (\<lambda>path indexed_row.
             \<exists>now i u. fst indexed_row = IntLabel i
               \<and> url_to_process w (columns df) (snd indexed_row) = Some u
               \<and> path = path_join DOWNLOAD_FOLDER_UI (filename_from_csv_url w now i u))
          paths
          (filter (\<lambda>indexed_row. url_to_process w (columns df) (snd indexed_row) \<noteq> None)
             (rows df))"
proof -
  define ready where "ready = is_client_ready w s"
  define s1 where "s1 =
    (if \<not> ready then
       flash ''Not connected to Telegram. Files will only be downloaded.'' ''info''
         (add_log w ''CSV Info: Not connected to Telegram. Files will only be downloaded.'' s)
     else s)"
  define s3 where "s3 =
    add_log w (''Starting CSV processing for '' @ str_int (int (length (rows df))) @ '' items...'')
      ((set_overall 0 s1)\<lparr>csv_current_item_progress := Some 0, modified := True\<rparr>)"
  have ints': "list_all (\<lambda>indexed_row. is_int_label (fst indexed_row)) (rows df)"
    using ints by (simp add: int_labels_def)
  have pos: "0 < length (rows df)" using some by simp
  obtain s4 k paths where loop:
      "csv_loop w (columns df) (length (rows df)) ready (rows df) (s3, 0) = Inr (s4, k)"
    and sv4: "saved (trace s4) = saved (trace s3) @ paths"
    and rel: "list_all2
          (\<lambda>path indexed_row.
             \<exists>now i u. fst indexed_row = IntLabel i
               \<and> url_to_process w (columns df) (snd indexed_row) = Some u
               \<and> path = path_join DOWNLOAD_FOLDER_UI (filename_from_csv_url w now i u))
          paths
          (filter (\<lambda>indexed_row. url_to_process w (columns df) (snd indexed_row) \<noteq> None)
             (rows df))"
    using csv_loop_saved [OF pos ints' fetched, of "columns df" ready s3 0] by blast
  have run: "run_csv_process_async w csv_file_bytes s =
      (True, set_overall 100
         (flash (''CSV processing completed. '' @ str_int (int k) @ ''/''
                  @ str_int (int (length (rows df)))
                  @ '' items successfully uploaded (if connected).'') ''success''
            (add_log w (''CSV processing completed. '' @ str_int (int k) @ '' of ''
                         @ str_int (int (length (rows df)))
                         @ '' items processed for potential upload.'') s4)))"
    using parse link some loop
    unfolding run_csv_process_async_def Let_def s3_def s1_def ready_def
    by simp
  have t3: "saved (trace s3) = saved (trace s)"
    unfolding s3_def s1_def by (simp add: trace_simps projections_append)
  have "saved (trace (snd (run_csv_process_async w csv_file_bytes s))) = saved (trace s) @ paths"
    by (simp add: run trace_simps projections_append sv4 t3)
  with rel show ?thesis by blast
qed

lemma csv_loop_aborted:
  "0 < n \<Longrightarrow> \<not> list_all (\<lambda>indexed_row. is_int_label (fst indexed_row)) rs \<Longrightarrow>
   \<exists>e s'. csv_loop w cols n ready rs (s, k) = Inl (Exception e, s')
      \<and> overall_history (trace s')
          = overall_history (trace s)
            @ map (\<lambda>indexed_row. label_progress n (fst indexed_row))
                (takeWhile (\<lambda>indexed_row. is_int_label (fst indexed_row)) rs)
      \<and> requested (trace s') = requested (trace s)
            @ List.map_filter (\<lambda>indexed_row. url_to_process w cols (snd indexed_row))
                (takeWhile (\<lambda>indexed_row. is_int_label (fst indexed_row)) rs)"
proof (induction rs arbitrary: s k)
  case Nil
  then show ?case by simp
next
  case (Cons r rs)
  obtain l row_data where r: "r = (l, row_data)" by (cases r)
  show ?case
  proof (cases l)
    case (OtherLabel type_name)
    then show ?thesis using r by (simp add: csv_item.simps List.map_filter_simps)
  next
    case (IntLabel i)
    obtain s1 k1 where step: "csv_item w cols n ready (IntLabel i, row_data) (s, k) = Inr (s1, k1)"
      and h1: "overall_history (trace s1) = overall_history (trace s) @ [item_progress n i]"
      and r1: "requested (trace s1)
          = requested (trace s) @ (case url_to_process w cols row_data of None \<Rightarrow> [] | Some u \<Rightarrow> [u])"
      using csv_item_int [OF Cons.prems(1), of w cols ready i row_data s k] by blast
    from Cons.prems r IntLabel
    have "\<not> list_all (\<lambda>indexed_row. is_int_label (fst indexed_row)) rs" by simp
    from Cons.IH [OF Cons.prems(1) this, of s1 k1] obtain e s2 where
      loop: "csv_loop w cols n ready rs (s1, k1) = Inl (Exception e, s2)"
      and h2: "overall_history (trace s2)
          = overall_history (trace s1)
            @ map (\<lambda>indexed_row. label_progress n (fst indexed_row))
                (takeWhile (\<lambda>indexed_row. is_int_label (fst indexed_row)) rs)"
      and r2: "requested (trace s2) = requested (trace s1)
            @ List.map_filter (\<lambda>indexed_row. url_to_process w cols (snd indexed_row))
                (takeWhile (\<lambda>indexed_row. is_int_label (fst indexed_row)) rs)"
      by blast
    have "csv_loop w cols n ready (r # rs) (s, k) = Inl (Exception e, s2)"
      using step loop r IntLabel by simp
    moreover have "overall_history (trace s2)
          = overall_history (trace s)
            @ map (\<lambda>indexed_row. label_progress n (fst indexed_row))
                (takeWhile (\<lambda>indexed_row. is_int_label (fst indexed_row)) (r # rs))"
      using h1 h2 r IntLabel by simp
    moreover have "requested (trace s2) = requested (trace s)
            @ List.map_filter (\<lambda>indexed_row. url_to_process w cols (snd indexed_row))
                (takeWhile (\<lambda>indexed_row. is_int_label (fst indexed_row)) (r # rs))"
      using r1 r2 r IntLabel by (simp add: List.map_filter_simps split: option.split)
    ultimately show ?thesis by blast
  qed
qed

text \<open>A parse error, and a label on which index + 1 raises: the progress ends at -1.\<close>

lemma run_parse_error:
  assumes "read_csv w csv_file_bytes = Inl e_parse"
  shows "\<not> fst (run_csv_process_async w csv_file_bytes s)"
    and "csv_overall_progress (snd (run_csv_process_async w csv_file_bytes s)) = Some (- 1)"
    and "overall_history (trace (snd (run_csv_process_async w csv_file_bytes s)))
          = overall_history (trace s) @ [0, - 1]"
  using assms
  by (simp_all add: run_csv_process_async_def Let_def trace_simps projections_append
        set_overall_def emit_def flash_def add_log_def)

lemma run_aborted:
  assumes parse: "read_csv w csv_file_bytes = Inr df"
    and link: "''link'' \<in> set (columns df)"
    and ints: "\<not> int_labels df"
  shows "\<not> fst (run_csv_process_async w csv_file_bytes s)"
    and "csv_overall_progress (snd (run_csv_process_async w csv_file_bytes s)) = Some (- 1)"
    and "overall_history (trace (snd (run_csv_process_async w csv_file_bytes s)))
          = overall_history (trace s) @ [0]
            @ map (\<lambda>indexed_row. label_progress (length (rows df)) (fst indexed_row))
                (takeWhile (\<lambda>indexed_row. is_int_label (fst indexed_row)) (rows df))
            @ [- 1]"
proof -
  define ready where "ready = is_client_ready w s"
  define s1 where "s1 =
    (if \<not> ready then
       flash ''Not connected to Telegram. Files will only be downloaded.'' ''info''
         (add_log w ''CSV Info: Not connected to Telegram. Files will only be downloaded.'' s)
     else s)"
  define s3 where "s3 =
    add_log w (''Starting CSV processing for '' @ str_int (int (length (rows df))) @ '' items...'')
      ((set_overall 0 s1)\<lparr>csv_current_item_progress := Some 0, modified := True\<rparr>)"
  have some: "rows df \<noteq> []" using ints by (auto simp add: int_labels_def)
  obtain e s4 where loop:
      "csv_loop w (columns df) (length (rows df)) ready (rows df) (s3, 0) = Inl (Exception e, s4)"
    and h4: "overall_history (trace s4)
          = overall_history (trace s3)
            @ map (\<lambda>indexed_row. label_progress (length (rows df)) (fst indexed_row))
                (takeWhile (\<lambda>indexed_row. is_int_label (fst indexed_row)) (rows df))"
    using csv_loop_aborted [of "length (rows df)" "rows df" w "columns df" ready s3 0] ints some
    unfolding int_labels_def by blast
  have run: "run_csv_process_async w csv_file_bytes s =
      (False, set_overall (- 1)
         (flash (''CSV processing failed: '' @ e) ''danger''
            (add_log w (''CSV processing failed: '' @ e) s4)))"
    using parse link some loop
    unfolding run_csv_process_async_def Let_def s3_def s1_def ready_def
    by simp
  have t3: "overall_history (trace s3) = overall_history (trace s) @ [0]"
    unfolding s3_def s1_def by (simp add: trace_simps projections_append)
  show "\<not> fst (run_csv_process_async w csv_file_bytes s)" by (simp add: run)
  show "csv_overall_progress (snd (run_csv_process_async w csv_file_bytes s)) = Some (- 1)"
    by (simp add: run set_overall_def emit_def)
  show "overall_history (trace (snd (run_csv_process_async w csv_file_bytes s)))
          = overall_history (trace s) @ [0]
            @ map (\<lambda>indexed_row. label_progress (length (rows df)) (fst indexed_row))
                (takeWhile (\<lambda>indexed_row. is_int_label (fst indexed_row)) (rows df))
            @ [- 1]"
    by (simp add: run trace_simps projections_append h4 t3)
qed

text \<open>
  Every run follows its outline; and the outline depends neither on what the downloads
  do nor on the client.
\<close>

lemma run_aborted_requested:
  assumes parse: "read_csv w csv_file_bytes = Inr df"
    and link: "''link'' \<in> set (columns df)"
    and ints: "\<not> int_labels df"
  shows "requested (trace (snd (run_csv_process_async w csv_file_bytes s)))
          = requested (trace s)
            @ List.map_filter (\<lambda>indexed_row. url_to_process w (columns df) (snd indexed_row))
                (takeWhile (\<lambda>indexed_row. is_int_label (fst indexed_row)) (rows df))"
proof -
  define ready where "ready = is_client_ready w s"
  define s1 where "s1 =
    (if \<not> ready then
       flash ''Not connected to Telegram. Files will only be downloaded.'' ''info''
         (add_log w ''CSV Info: Not connected to Telegram. Files will only be downloaded.'' s)
     else s)"
  define s3 where "s3 =
    add_log w (''Starting CSV processing for '' @ str_int (int (length (rows df))) @ '' items...'')
      ((set_overall 0 s1)\<lparr>csv_current_item_progress := Some 0, modified := True\<rparr>)"
  have some: "rows df \<noteq> []" using ints by (auto simp add: int_labels_def)
  obtain e s4 where loop:
      "csv_loop w (columns df) (length (rows df)) ready (rows df) (s3, 0) = Inl (Exception e, s4)"
    and r4: "requested (trace s4) = requested (trace s3)
            @ List.map_filter (\<lambda>indexed_row. url_to_process w (columns df) (snd indexed_row))
                (takeWhile (\<lambda>indexed_row. is_int_label (fst indexed_row)) (rows df))"
    using csv_loop_aborted [of "length (rows df)" "rows df" w "columns df" ready s3 0] ints some
    unfolding int_labels_def by blast
  have run: "run_csv_process_async w csv_file_bytes s =
      (False, set_overall (- 1)
         (flash (''CSV processing failed: '' @ e) ''danger''
            (add_log w (''CSV processing failed: '' @ e) s4)))"
    using parse link some loop
    unfolding run_csv_process_async_def Let_def s3_def s1_def ready_def
    by simp
  have t3: "requested (trace s3) = requested (trace s)"
    unfolding s3_def s1_def by (simp add: trace_simps projections_append)
  show ?thesis
    by (simp add: run trace_simps projections_append r4 t3)
qed

lemma run_follows_outline:
  "fst (run_csv_process_async w csv_file_bytes s) = fst (run_outline w csv_file_bytes)
   \<and> overall_history (trace (snd (run_csv_process_async w csv_file_bytes s)))
       = overall_history (trace s) @ fst (snd (run_outline w csv_file_bytes))
   \<and> requested (trace (snd (run_csv_process_async w csv_file_bytes s)))
       = requested (trace s) @ snd (snd (run_outline w csv_file_bytes))"
proof (cases "read_csv w csv_file_bytes")
  case (Inl e_parse)
  then show ?thesis
    by (simp add: run_outline_def run_csv_process_async_def Let_def trace_simps
          projections_append)
next
  case (Inr df)
  show ?thesis
  proof (cases "''link'' \<in> set (columns df)")
    case False
    then show ?thesis
      using Inr
      by (simp add: run_outline_def run_csv_process_async_def Let_def trace_simps
            projections_append)
  next
    case link: True
    show ?thesis
    proof (cases "rows df = []")
      case True
      then show ?thesis
        using Inr link
        by (simp add: run_outline_def run_csv_process_async_def Let_def trace_simps
              projections_append)
    next
      case some: False
      show ?thesis
      proof (cases "int_labels df")
        case True
        then have all: "takeWhile (\<lambda>indexed_row. is_int_label (fst indexed_row)) (rows df) = rows df"
          by (simp add: int_labels_def list_all_iff takeWhile_eq_all_conv)
        show ?thesis
          using run_completed(1,3,4) [OF Inr link some True, of s] Inr link some True
          by (simp add: run_outline_def Let_def urls_to_process_def all)
      next
        case False
        show ?thesis
          using run_aborted(1,3) [OF Inr link False, of s]
            run_aborted_requested [OF Inr link False, of s] Inr link some False
          by (simp add: run_outline_def Let_def)
      qed
    qed
  qed
qed

lemma url_to_process_ignores:
  "url_to_process (w\<lparr>download := d\<rparr>) cols row_data = url_to_process w cols row_data"
  "url_to_process (w\<lparr>telethon_client := c\<rparr>) cols row_data = url_to_process w cols row_data"
  by (simp_all add: url_to_process_def split: option.split cell.split)


lemma outline_ignores_client:
  "run_outline (w\<lparr>telethon_client := c\<rparr>) csv_file_bytes = run_outline w csv_file_bytes"
  by (simp add: run_outline_def url_to_process_ignores split: sum.split)


lemma session_does_not_decide:
  "fst (run_csv_process_async (w\<lparr>telethon_client := c\<rparr>) csv_file_bytes
          (s\<lparr>session_active := a\<rparr>))
     = fst (run_csv_process_async w csv_file_bytes s)
   \<and> overall_history (trace (snd (run_csv_process_async (w\<lparr>telethon_client := c\<rparr>)
          csv_file_bytes (s\<lparr>session_active := a\<rparr>))))
       = overall_history (trace (snd (run_csv_process_async w csv_file_bytes s)))
   \<and> requested (trace (snd (run_csv_process_async (w\<lparr>telethon_client := c\<rparr>)
          csv_file_bytes (s\<lparr>session_active := a\<rparr>))))
       = requested (trace (snd (run_csv_process_async w csv_file_bytes s)))"
  using run_follows_outline [of "w\<lparr>telethon_client := c\<rparr>" csv_file_bytes
          "s\<lparr>session_active := a\<rparr>"]
    run_follows_outline [of w csv_file_bytes s]
  by (simp add: outline_ignores_client)

section \<open>add_log keeps the newest 100 entries\<close>

text \<open>
  C10: after every call to \<open>add_log\<close> the session has a log list, which is the entry
  just written in front of the list as it was, cut to its first 100 entries: it holds
  at most 100 entries, the newest first, and what is cut off is the oldest.
\<close>

theorem add_log_bounded_newest_first:
  "logs (add_log w message s) =
     Some (take 100 ((''['' @ strftime w (length (trace s)) @ ''] '' @ message) # session_logs s))
   \<and> length (session_logs (add_log w message s)) \<le> 100
   \<and> hd (session_logs (add_log w message s))
       = ''['' @ strftime w (length (trace s)) @ ''] '' @ message"
  by (simp add: add_log_def Let_def emit_def session_logs_def)

theorem add_log_bounded_newest_first_witness:
  "session_logs (add_log (calm_world \<lparr>columns = [], rows = []\<rparr>) ''started''
      (fresh_session\<lparr>logs := Some (replicate 100 ''old'')\<rparr>))
     = ''[2024-01-01 00:00:00] started'' # replicate 99 ''old''"
  using add_log_bounded_newest_first
          [of "calm_world \<lparr>columns = [], rows = []\<rparr>" "''started''"
              "fresh_session\<lparr>logs := Some (replicate 100 ''old'')\<rparr>"]
  by (simp add: session_logs_def calm_world_def fresh_session_def)

section \<open>_upload_file_async without a connection\<close>

text \<open>
  C9: when the session is not active, or there is no client, or the client is not
  connected, \<open>_upload_file_async\<close> returns \<open>False\<close> after logging and flashing
  \<open>Upload Error: Not connected.\<close>; it makes no \<open>send_file\<close> call and leaves the upload
  progress as it was, whatever the file path and the caption.
\<close>

theorem upload_refused_when_not_connected:
  assumes "\<not> is_client_ready w s"
  shows "upload_file_async w filepath caption s =
           (False, flash ''Upload Error: Not connected.'' ''danger''
                     (add_log w ''Upload Error: Not connected.'' s))
       \<and> uploads (trace (snd (upload_file_async w filepath caption s))) = uploads (trace s)
       \<and> flashed (trace (snd (upload_file_async w filepath caption s)))
           = flashed (trace s) @ [(''Upload Error: Not connected.'', ''danger'')]
       \<and> upload_progress (snd (upload_file_async w filepath caption s)) = upload_progress s"
  using assms
  by (simp add: upload_file_async_def trace_simps projections_append flash_def emit_def
        add_log_def Let_def)

theorem upload_refused_when_not_connected_witness:
  "\<not> is_client_ready (calm_world two_rows) fresh_session
   \<and> fst (upload_file_async (calm_world two_rows) ''downloads_colab_ui_async/a.txt'' ''first''
            fresh_session) = False
   \<and> uploads (trace (snd (upload_file_async (calm_world two_rows)
         ''downloads_colab_ui_async/a.txt'' ''first'' fresh_session))) = []
   \<and> flashed (trace (snd (upload_file_async (calm_world two_rows)
         ''downloads_colab_ui_async/a.txt'' ''first'' fresh_session)))
       = [(''Upload Error: Not connected.'', ''danger'')]"
proof -
  have not_ready: "\<not> is_client_ready (calm_world two_rows) fresh_session"
    by (simp add: is_client_ready_def fresh_session_def)
  show ?thesis
    using not_ready
      upload_refused_when_not_connected
        [OF not_ready, of "''downloads_colab_ui_async/a.txt''" "''first''"]
    by (simp add: fresh_session_def trace_simps)
qed

section \<open>Manifests that are not processed\<close>

lemma fresh_session_simps:
  "trace fresh_session = []" "session_active fresh_session = None"
  "trace connected_session = []" "session_active connected_session = Some True"
  by (simp_all add: fresh_session_def connected_session_def)

lemma not_ready_fresh: "\<not> is_client_ready w fresh_session"
  by (simp add: is_client_ready_def fresh_session_simps)

text \<open>
  C5: when the parsed manifest has the \<open>link\<close> column and no data row, the run returns
  \<open>True\<close>; the overall progress is assigned once, to 0, and stays 0 (it is never -1);
  nothing is requested or uploaded, and the run flashes the informational
  \<open>CSV Info: File is empty.\<close> (after the note on download-only mode, when the client is
  not ready).
\<close>

theorem empty_manifest_is_successful:
  assumes "read_csv w csv_file_bytes = Inr df"
    and "''link'' \<in> set (columns df)"
    and "rows df = []"
  shows "fst (run_csv_process_async w csv_file_bytes s)
       \<and> csv_overall_progress (snd (run_csv_process_async w csv_file_bytes s)) = Some 0
       \<and> overall_history (trace (snd (run_csv_process_async w csv_file_bytes s)))
           = overall_history (trace s) @ [0]
       \<and> requested (trace (snd (run_csv_process_async w csv_file_bytes s)))
           = requested (trace s)
       \<and> uploads (trace (snd (run_csv_process_async w csv_file_bytes s))) = uploads (trace s)
       \<and> flashed (trace (snd (run_csv_process_async w csv_file_bytes s)))
           = flashed (trace s)
             @ (if is_client_ready w s then []
                else [(''Not connected to Telegram. Files will only be downloaded.'', ''info'')])
             @ [(''CSV Info: File is empty.'', ''info'')]"
  using assms
  by (simp add: run_csv_process_async_def Let_def trace_simps projections_append
        set_overall_def emit_def flash_def add_log_def)

theorem empty_manifest_is_successful_witness:
  "read_csv (calm_world header_only) header_only_csv = Inr header_only
   \<and> ''link'' \<in> set (columns header_only)
   \<and> rows header_only = []
   \<and> fst (run_csv_process_async (calm_world header_only) header_only_csv fresh_session)
   \<and> csv_overall_progress
        (snd (run_csv_process_async (calm_world header_only) header_only_csv fresh_session))
       = Some 0
   \<and> overall_history
        (trace (snd (run_csv_process_async (calm_world header_only) header_only_csv
           fresh_session)))
       = [0]
   \<and> flashed
        (trace (snd (run_csv_process_async (calm_world header_only) header_only_csv
           fresh_session)))
       = [(''Not connected to Telegram. Files will only be downloaded.'', ''info''),
          (''CSV Info: File is empty.'', ''info'')]"
proof -
  have parse: "read_csv (calm_world header_only) header_only_csv = Inr header_only"
    by (simp add: calm_world_def)
  have link: "''link'' \<in> set (columns header_only)"
    by (simp add: header_only_def)
  have none: "rows header_only = []"
    by (simp add: header_only_def)
  show ?thesis
    using parse link none not_ready_fresh [of "calm_world header_only"]
      empty_manifest_is_successful [OF parse link none, of fresh_session]
    by (simp add: fresh_session_simps)
qed

text \<open>
  C6: when the parsed table has no column named exactly \<open>link\<close>, the run returns
  \<open>False\<close>; the overall progress is assigned 0 and then -1, which is its value at the
  end; nothing is requested and nothing is uploaded; the last notification is the
  error that the file must contain a \<open>link\<close> column.
\<close>

theorem missing_link_column_fails:
  assumes "read_csv w csv_file_bytes = Inr df"
    and "''link'' \<notin> set (columns df)"
  shows "\<not> fst (run_csv_process_async w csv_file_bytes s)
       \<and> csv_overall_progress (snd (run_csv_process_async w csv_file_bytes s)) = Some (- 1)
       \<and> overall_history (trace (snd (run_csv_process_async w csv_file_bytes s)))
           = overall_history (trace s) @ [0, - 1]
       \<and> requested (trace (snd (run_csv_process_async w csv_file_bytes s)))
           = requested (trace s)
       \<and> uploads (trace (snd (run_csv_process_async w csv_file_bytes s))) = uploads (trace s)
       \<and> last (flashed (trace (snd (run_csv_process_async w csv_file_bytes s))))
           = (''CSV Error: CSV file must contain a '' @ [CHR 0x27] @ ''link'' @ [CHR 0x27]
                @ '' column.'', ''danger'')"
  using assms
  by (simp add: run_csv_process_async_def Let_def trace_simps projections_append
        set_overall_def emit_def flash_def add_log_def)

theorem missing_link_column_fails_witness:
  "read_csv (calm_world capital_link) capital_link_csv = Inr capital_link
   \<and> ''link'' \<notin> set (columns capital_link)
   \<and> \<not> fst (run_csv_process_async (calm_world capital_link) capital_link_csv
              connected_session)
   \<and> csv_overall_progress
        (snd (run_csv_process_async (calm_world capital_link) capital_link_csv
           connected_session))
       = Some (- 1)
   \<and> overall_history
        (trace (snd (run_csv_process_async (calm_world capital_link) capital_link_csv
           connected_session)))
       = [0, - 1]
   \<and> requested
        (trace (snd (run_csv_process_async (calm_world capital_link) capital_link_csv
           connected_session)))
       = []
   \<and> uploads
        (trace (snd (run_csv_process_async (calm_world capital_link) capital_link_csv
           connected_session)))
       = []"
proof -
  have parse: "read_csv (calm_world capital_link) capital_link_csv = Inr capital_link"
    by (simp add: calm_world_def)
  have no_link: "''link'' \<notin> set (columns capital_link)"
    by (simp add: capital_link_def)
  show ?thesis
    using parse no_link missing_link_column_fails [OF parse no_link, of connected_session]
    by (simp add: fresh_session_simps)
qed

section \<open>Runs over the rows of a manifest\<close>

lemma urls_two_rows:
  "urls_to_process (calm_world two_rows) two_rows = [''http://h/a.txt'', ''http://h/b.txt'']"
  "urls_to_process (first_404 two_rows) two_rows = [''http://h/a.txt'', ''http://h/b.txt'']"
  by (simp_all add: urls_to_process_def url_to_process_def two_rows_def row_get_def strip_def
        isspace_def ascii_space_def calm_world_def first_404_def List.map_filter_simps)

lemma two_rows_simps:
  "''link'' \<in> set (columns two_rows)" "rows two_rows \<noteq> []" "int_labels two_rows"
  "default_index two_rows" "length (rows two_rows) = 2"
  by (simp_all add: two_rows_def int_labels_def default_index_def)

lemma names_two_rows:
  "path_join DOWNLOAD_FOLDER_UI
     (filename_from_csv_url (calm_world two_rows) now i ''http://h/a.txt'')
     = ''downloads_colab_ui_async/a.txt''"
  "path_join DOWNLOAD_FOLDER_UI
     (filename_from_csv_url (calm_world two_rows) now i ''http://h/b.txt'')
     = ''downloads_colab_ui_async/b.txt''"
  by (simp_all add: filename_from_csv_url_def kept_name_def keep_char_def isalnum_def
        ascii_alnum_def strip_def isspace_def ascii_space_def calm_world_def path_join_def
        DOWNLOAD_FOLDER_UI_def)

lemma cells_two_rows:
  "url_to_process (calm_world two_rows) (columns two_rows) [Str ''http://h/a.txt'', Str ''first'']
     = Some ''http://h/a.txt''"
  "url_to_process (calm_world two_rows) (columns two_rows) [Str ''http://h/b.txt'', Str ''second'']
     = Some ''http://h/b.txt''"
  by (simp_all add: url_to_process_def two_rows_def row_get_def strip_def isspace_def
        ascii_space_def calm_world_def)

text \<open>
  C7, in three parts. For every run: whether the session is active and whether the
  client is there and connected has no bearing on the value the run returns, on the
  values it assigns to the overall progress or on the URLs it requests, so the lack of
  a session is never what makes a run fail. For a run that starts with the client not
  ready (the session is not active, or there is no client, or it is not connected) on
  a manifest that parses to a frame with the \<open>link\<close> column, at least one row and
  integer row labels: it returns \<open>True\<close> with the overall progress at 100, it requests
  the URL of every row that is not skipped, in order, it makes no \<open>send_file\<close> call, and
  the only \<open>info\<close> notification it flashes is the one saying that files will only be
  downloaded; and when every download succeeds, the files it has written are one for
  each row that is not skipped, in row order, each in the download folder under the
  name made from the row's URL (or, when nothing of the URL is kept, from the clock and
  the row's label). At the item, without upload: on a row whose \<open>link\<close> cell is a
  \<open>str\<close> that is not blank once stripped and whose download succeeds, the loop body
  requests the URL, writes the file to that path, makes no \<open>send_file\<close> call, flashes
  nothing and leaves the count of successful uploads as it was.
\<close>

theorem download_only_mode:
  "(fst (run_csv_process_async (w\<lparr>telethon_client := c\<rparr>) csv_file_bytes
           (s\<lparr>session_active := a\<rparr>))
      = fst (run_csv_process_async w csv_file_bytes s)
    \<and> overall_history (trace (snd (run_csv_process_async (w\<lparr>telethon_client := c\<rparr>)
           csv_file_bytes (s\<lparr>session_active := a\<rparr>))))
        = overall_history (trace (snd (run_csv_process_async w csv_file_bytes s)))
    \<and> requested (trace (snd (run_csv_process_async (w\<lparr>telethon_client := c\<rparr>)
           csv_file_bytes (s\<lparr>session_active := a\<rparr>))))
        = requested (trace (snd (run_csv_process_async w csv_file_bytes s))))
   \<and> (\<not> is_client_ready w s \<and> read_csv w csv_file_bytes = Inr df
      \<and> ''link'' \<in> set (columns df) \<and> rows df \<noteq> [] \<and> int_labels df
    \<longrightarrow> fst (run_csv_process_async w csv_file_bytes s)
        \<and> csv_overall_progress (snd (run_csv_process_async w csv_file_bytes s)) = Some 100
        \<and> requested (trace (snd (run_csv_process_async w csv_file_bytes s)))
            = requested (trace s) @ urls_to_process w df
        \<and> uploads (trace (snd (run_csv_process_async w csv_file_bytes s)))
            = uploads (trace s)
        \<and> info_flashes (trace (snd (run_csv_process_async w csv_file_bytes s)))
            = info_flashes (trace s)
              @ [''Not connected to Telegram. Files will only be downloaded.'']
        \<and> ((\<forall>j u. download w j u = Downloaded)
           \<longrightarrow> (\<exists>paths. saved (trace (snd (run_csv_process_async w csv_file_bytes s)))
                           = saved (trace s) @ paths
                 \<and> list_all2
                     (\<lambda>path indexed_row.
                        \<exists>now i u. fst indexed_row = IntLabel i
                          \<and> url_to_process w (columns df) (snd indexed_row) = Some u
                          \<and> path = path_join DOWNLOAD_FOLDER_UI
                                     (filename_from_csv_url w now i u))
                     paths
                     (filter (\<lambda>indexed_row.
                                url_to_process w (columns df) (snd indexed_row) \<noteq> None)
                        (rows df)))))
   \<and> (0 < n \<and> row_get cols row_data ''link'' = Some (Str u)
      \<and> strip (isspace (isspace_hi w)) u \<noteq> []
      \<and> download w (length (requested (trace s1))) u = Downloaded
    \<longrightarrow> (\<exists>s'. csv_item w cols n False (IntLabel i, row_data) (s1, k) = Inr (s', k)
          \<and> requested (trace s') = requested (trace s1) @ [u]
          \<and> saved (trace s')
              = saved (trace s1)
                @ [path_join DOWNLOAD_FOLDER_UI
                     (filename_from_csv_url w (time_time w (length (trace s1) + 2)) i u)]
          \<and> uploads (trace s') = uploads (trace s1)
          \<and> flashed (trace s') = flashed (trace s1)))"
proof (intro conjI impI)
  show "fst (run_csv_process_async (w\<lparr>telethon_client := c\<rparr>) csv_file_bytes
           (s\<lparr>session_active := a\<rparr>))
      = fst (run_csv_process_async w csv_file_bytes s)"
    and "overall_history (trace (snd (run_csv_process_async (w\<lparr>telethon_client := c\<rparr>)
           csv_file_bytes (s\<lparr>session_active := a\<rparr>))))
        = overall_history (trace (snd (run_csv_process_async w csv_file_bytes s)))"
    and "requested (trace (snd (run_csv_process_async (w\<lparr>telethon_client := c\<rparr>)
           csv_file_bytes (s\<lparr>session_active := a\<rparr>))))
        = requested (trace (snd (run_csv_process_async w csv_file_bytes s)))"
    using session_does_not_decide
            [where w = w and c = c and csv_file_bytes = csv_file_bytes and s = s and a = a]
    by simp_all
next
  assume "\<not> is_client_ready w s \<and> read_csv w csv_file_bytes = Inr df
      \<and> ''link'' \<in> set (columns df) \<and> rows df \<noteq> [] \<and> int_labels df"
  then have off: "\<not> is_client_ready w s" and parse: "read_csv w csv_file_bytes = Inr df"
    and link: "''link'' \<in> set (columns df)" and some: "rows df \<noteq> []"
    and ints: "int_labels df"
    by simp_all
  note completed = run_completed [OF parse link some ints, of s]
  show "fst (run_csv_process_async w csv_file_bytes s)" by (rule completed(1))
  show "csv_overall_progress (snd (run_csv_process_async w csv_file_bytes s)) = Some 100"
    by (rule completed(2))
  show "requested (trace (snd (run_csv_process_async w csv_file_bytes s)))
            = requested (trace s) @ urls_to_process w df"
    by (rule completed(4))
  show "uploads (trace (snd (run_csv_process_async w csv_file_bytes s))) = uploads (trace s)"
    by (rule completed(5) [OF off])
  show "info_flashes (trace (snd (run_csv_process_async w csv_file_bytes s)))
            = info_flashes (trace s)
              @ [''Not connected to Telegram. Files will only be downloaded.'']"
    by (rule completed(6) [OF off])
  show "\<exists>paths. saved (trace (snd (run_csv_process_async w csv_file_bytes s)))
                           = saved (trace s) @ paths
                 \<and> list_all2
                     (\<lambda>path indexed_row.
                        \<exists>now i u. fst indexed_row = IntLabel i
                          \<and> url_to_process w (columns df) (snd indexed_row) = Some u
                          \<and> path = path_join DOWNLOAD_FOLDER_UI
                                     (filename_from_csv_url w now i u))
                     paths
                     (filter (\<lambda>indexed_row.
                                url_to_process w (columns df) (snd indexed_row) \<noteq> None)
                        (rows df))"
    if "\<forall>j u. download w j u = Downloaded"
    by (rule run_completed_saved [OF parse link some ints that])
next
  assume "0 < n \<and> row_get cols row_data ''link'' = Some (Str u)
      \<and> strip (isspace (isspace_hi w)) u \<noteq> []
      \<and> download w (length (requested (trace s1))) u = Downloaded"
  then have "0 < n" and "url_to_process w cols row_data = Some u"
    and "download w (length (requested (trace s1))) u = Downloaded"
    by (simp_all add: url_to_process_Some_iff)
  then show "\<exists>s'. csv_item w cols n False (IntLabel i, row_data) (s1, k) = Inr (s', k)
          \<and> requested (trace s') = requested (trace s1) @ [u]
          \<and> saved (trace s')
              = saved (trace s1)
                @ [path_join DOWNLOAD_FOLDER_UI
                     (filename_from_csv_url w (time_time w (length (trace s1) + 2)) i u)]
          \<and> uploads (trace s') = uploads (trace s1)
          \<and> flashed (trace s') = flashed (trace s1)"
    by (rule csv_item_download_only)
qed

theorem download_only_mode_witness:
  "fst (run_csv_process_async ((calm_world two_rows)\<lparr>telethon_client := (\<lambda>t. Some True)\<rparr>)
          two_rows_csv (fresh_session\<lparr>session_active := Some True\<rparr>))
     = fst (run_csv_process_async (calm_world two_rows) two_rows_csv fresh_session)
   \<and> \<not> is_client_ready (calm_world two_rows) fresh_session
   \<and> read_csv (calm_world two_rows) two_rows_csv = Inr two_rows
   \<and> ''link'' \<in> set (columns two_rows)
   \<and> rows two_rows \<noteq> []
   \<and> int_labels two_rows
   \<and> fst (run_csv_process_async (calm_world two_rows) two_rows_csv fresh_session)
   \<and> csv_overall_progress
        (snd (run_csv_process_async (calm_world two_rows) two_rows_csv fresh_session))
       = Some 100
   \<and> requested
        (trace (snd (run_csv_process_async (calm_world two_rows) two_rows_csv
           fresh_session)))
       = [''http://h/a.txt'', ''http://h/b.txt'']
   \<and> uploads
        (trace (snd (run_csv_process_async (calm_world two_rows) two_rows_csv
           fresh_session)))
       = []
   \<and> info_flashes
        (trace (snd (run_csv_process_async (calm_world two_rows) two_rows_csv
           fresh_session)))
       = [''Not connected to Telegram. Files will only be downloaded.'']
   \<and> (\<forall>j u. download (calm_world two_rows) j u = Downloaded)
   \<and> saved
        (trace (snd (run_csv_process_async (calm_world two_rows) two_rows_csv
           fresh_session)))
       = [''downloads_colab_ui_async/a.txt'', ''downloads_colab_ui_async/b.txt'']
   \<and> (0 :: nat) < 2
   \<and> row_get (columns two_rows) [Str ''http://h/a.txt'', Str ''first''] ''link''
       = Some (Str ''http://h/a.txt'')
   \<and> strip (isspace (isspace_hi (calm_world two_rows))) ''http://h/a.txt'' \<noteq> []
   \<and> download (calm_world two_rows) (length (requested (trace fresh_session)))
        ''http://h/a.txt'' = Downloaded
   \<and> (\<exists>s'. csv_item (calm_world two_rows) (columns two_rows) 2 False
               (IntLabel 0, [Str ''http://h/a.txt'', Str ''first'']) (fresh_session, 0)
             = Inr (s', 0)
          \<and> requested (trace s') = [''http://h/a.txt'']
          \<and> saved (trace s') = [''downloads_colab_ui_async/a.txt'']
          \<and> uploads (trace s') = []
          \<and> flashed (trace s') = [])"
proof -
  have parse: "read_csv (calm_world two_rows) two_rows_csv = Inr two_rows"
    by (simp add: calm_world_def)
  have fetched: "\<forall>j u. download (calm_world two_rows) j u = Downloaded"
    by (simp add: calm_world_def)
  have cell: "row_get (columns two_rows) [Str ''http://h/a.txt'', Str ''first''] ''link''
                = Some (Str ''http://h/a.txt'')"
    by (simp add: two_rows_def row_get_def)
  have not_blank: "strip (isspace (isspace_hi (calm_world two_rows))) ''http://h/a.txt'' \<noteq> []"
    by (simp add: strip_def isspace_def ascii_space_def calm_world_def)
  note at_two_rows =
    download_only_mode
      [where w = "calm_world two_rows" and c = "\<lambda>t. Some True"
         and csv_file_bytes = two_rows_csv and s = fresh_session and a = "Some True"
         and df = two_rows and n = 2 and cols = "columns two_rows"
         and row_data = "[Str ''http://h/a.txt'', Str ''first'']" and u = "''http://h/a.txt''"
         and ?s1.0 = fresh_session and i = 0 and k = 0]
  have run: "fst (run_csv_process_async
                    ((calm_world two_rows)\<lparr>telethon_client := (\<lambda>t. Some True)\<rparr>)
                    two_rows_csv (fresh_session\<lparr>session_active := Some True\<rparr>))
     = fst (run_csv_process_async (calm_world two_rows) two_rows_csv fresh_session)
   \<and> fst (run_csv_process_async (calm_world two_rows) two_rows_csv fresh_session)
   \<and> csv_overall_progress
        (snd (run_csv_process_async (calm_world two_rows) two_rows_csv fresh_session))
       = Some 100
   \<and> requested
        (trace (snd (run_csv_process_async (calm_world two_rows) two_rows_csv
           fresh_session)))
       = [''http://h/a.txt'', ''http://h/b.txt'']
   \<and> uploads
        (trace (snd (run_csv_process_async (calm_world two_rows) two_rows_csv
           fresh_session)))
       = []
   \<and> info_flashes
        (trace (snd (run_csv_process_async (calm_world two_rows) two_rows_csv
           fresh_session)))
       = [''Not connected to Telegram. Files will only be downloaded.'']"
    using parse not_ready_fresh [of "calm_world two_rows"] at_two_rows
    by (simp add: fresh_session_simps two_rows_simps urls_two_rows)
  have files: "saved
        (trace (snd (run_csv_process_async (calm_world two_rows) two_rows_csv
           fresh_session)))
       = [''downloads_colab_ui_async/a.txt'', ''downloads_colab_ui_async/b.txt'']"
  proof -
    from at_two_rows parse not_ready_fresh [of "calm_world two_rows"] fetched
    obtain paths where
      written: "saved (trace (snd (run_csv_process_async (calm_world two_rows) two_rows_csv
                  fresh_session))) = saved (trace fresh_session) @ paths"
      and each: "list_all2
                   (\<lambda>path indexed_row.
                      \<exists>now i u. fst indexed_row = IntLabel i
                        \<and> url_to_process (calm_world two_rows) (columns two_rows)
                             (snd indexed_row) = Some u
                        \<and> path = path_join DOWNLOAD_FOLDER_UI
                                   (filename_from_csv_url (calm_world two_rows) now i u))
                   paths
                   (filter (\<lambda>indexed_row.
                              url_to_process (calm_world two_rows) (columns two_rows)
                                (snd indexed_row) \<noteq> None)
                      (rows two_rows))"
      by (auto simp add: two_rows_simps)
    have "rows two_rows = [(IntLabel 0, [Str ''http://h/a.txt'', Str ''first'']),
                           (IntLabel 1, [Str ''http://h/b.txt'', Str ''second''])]"
      by (simp add: two_rows_def)
    with each have "paths = [''downloads_colab_ui_async/a.txt'', ''downloads_colab_ui_async/b.txt'']"
      by (auto simp add: cells_two_rows names_two_rows list_all2_Cons2)
    with written show ?thesis by (simp add: fresh_session_simps)
  qed
  have item: "\<exists>s'. csv_item (calm_world two_rows) (columns two_rows) 2 False
               (IntLabel 0, [Str ''http://h/a.txt'', Str ''first'']) (fresh_session, 0)
             = Inr (s', 0)
          \<and> requested (trace s') = [''http://h/a.txt'']
          \<and> saved (trace s') = [''downloads_colab_ui_async/a.txt'']
          \<and> uploads (trace s') = []
          \<and> flashed (trace s') = []"
    using at_two_rows cell not_blank fetched
    by (simp add: fresh_session_simps names_two_rows)
  show ?thesis
    using run not_ready_fresh [of "calm_world two_rows"] parse fetched files cell not_blank item
    by (simp add: two_rows_simps)
qed


lemma url_to_process_None_iff:
  "url_to_process w cols row_data = None
     \<longleftrightarrow> (\<forall>t. row_get cols row_data ''link'' = Some (Str t)
              \<longrightarrow> strip (isspace (isspace_hi w)) t = [])"
  by (auto simp add: url_to_process_def split: option.splits cell.splits)

lemma map_filter_concat:
  "List.map_filter f xs = concat (map (\<lambda>x. case f x of None \<Rightarrow> [] | Some y \<Rightarrow> [y]) xs)"
  by (induction xs) (simp_all add: List.map_filter_simps split: option.split)

lemma urls_to_process_cells:
  "urls_to_process w df =
     concat (map (\<lambda>indexed_row.
                    (case row_get (columns df) (snd indexed_row) ''link'' of
                       Some (Str t) \<Rightarrow> if strip (isspace (isspace_hi w)) t = [] then [] else [t]
                     | _ \<Rightarrow> []))
               (rows df))"
proof -
  have "(case url_to_process w cols row_data of None \<Rightarrow> [] | Some y \<Rightarrow> [y])
          = (case row_get cols row_data ''link'' of
               Some (Str t) \<Rightarrow> if strip (isspace (isspace_hi w)) t = [] then [] else [t]
             | _ \<Rightarrow> [])" for cols row_data
    by (simp add: url_to_process_def split: option.split cell.split)
  then show ?thesis
    by (simp add: urls_to_process_def map_filter_concat)
qed

lemma csv_item_skipped:
  assumes "0 < n"
    and "url_to_process w cols row_data = None"
  shows "\<exists>s'. csv_item w cols n ready (IntLabel i, row_data) (s, k) = Inr (s', k)
      \<and> csv_overall_progress s' = Some (item_progress n i)
      \<and> overall_history (trace s') = overall_history (trace s) @ [item_progress n i]
      \<and> requested (trace s') = requested (trace s)
      \<and> saved (trace s') = saved (trace s)
      \<and> uploads (trace s') = uploads (trace s)
      \<and> flashed (trace s') = flashed (trace s)
      \<and> (\<exists>timestamp. hd (session_logs s')
            = ''['' @ timestamp @ ''] CSV Item '' @ str_int (i + 1) @ ''/'' @ str_int (int n)
              @ '': Skipped (empty or invalid URL in '' @ [CHR 0x27] @ ''link'' @ [CHR 0x27]
              @ '' column).'')"
  using assms
  by (simp add: csv_item.simps Let_def trace_simps projections_append session_logs_def
        add_log_def flash_def emit_def set_overall_def)

lemma default_index_int_labels: "default_index df \<Longrightarrow> int_labels df"
proof -
  assume d: "default_index df"
  have "list_all is_int_label (map fst (rows df))"
    using d by (simp add: default_index_def list_all_iff)
  then show ?thesis by (simp add: int_labels_def list_all_iff)
qed

lemma default_index_progress:
  assumes "default_index df"
  shows "map (\<lambda>indexed_row. label_progress n (fst indexed_row)) (rows df)
           = map (\<lambda>k. item_progress n (int k)) [0..<length (rows df)]"
proof -
  have "map (\<lambda>indexed_row. label_progress n (fst indexed_row)) (rows df)
          = map (label_progress n) (map fst (rows df))"
    by simp
  also have "\<dots> = map (\<lambda>k. item_progress n (int k)) [0..<length (rows df)]"
    using assms by (simp add: default_index_def)
  finally show ?thesis .
qed

lemma blank_second_simps:
  "''link'' \<in> set (columns blank_second)" "rows blank_second \<noteq> []"
  "default_index blank_second" "length (rows blank_second) = 3"
  by (simp_all add: blank_second_def default_index_def upt_rec)




text \<open>
  C3, in two parts. At the item: on a row whose \<open>link\<close> cell is not a \<open>str\<close> (no
  text of the cell is there to be blank) or is a \<open>str\<close> that is blank once stripped,
  the loop body assigns the overall progress for that row, writes the log entry that
  the row is skipped and returns normally: nothing is requested, saved, uploaded or
  flashed, and the count of successful uploads is unchanged. For the run: on every
  manifest that parses to a frame with the \<open>link\<close> column, n rows (n at least 1) and
  the default index, the run returns \<open>True\<close>; the overall progress is assigned 0, then
  once for each of the n rows, the skipped ones included, the float
  \<open>((k + 1) / n) * 100\<close> for the row at position k, then 100; and the URLs requested are
  the link cells that are a \<open>str\<close> and not blank once stripped, in row order.
\<close>

theorem blank_link_is_skipped_but_counted:
  "(0 < n \<and> (\<forall>t. row_get cols row_data ''link'' = Some (Str t)
                 \<longrightarrow> strip (isspace (isspace_hi w)) t = [])
    \<longrightarrow> (\<exists>s'. csv_item w cols n ready (IntLabel i, row_data) (s, k) = Inr (s', k)
          \<and> csv_overall_progress s' = Some (item_progress n i)
          \<and> overall_history (trace s') = overall_history (trace s) @ [item_progress n i]
          \<and> requested (trace s') = requested (trace s)
          \<and> saved (trace s') = saved (trace s)
          \<and> uploads (trace s') = uploads (trace s)
          \<and> flashed (trace s') = flashed (trace s)
          \<and> (\<exists>timestamp. hd (session_logs s')
                = ''['' @ timestamp @ ''] CSV Item '' @ str_int (i + 1) @ ''/''
                  @ str_int (int n) @ '': Skipped (empty or invalid URL in '' @ [CHR 0x27]
                  @ ''link'' @ [CHR 0x27] @ '' column).'')))
   \<and> (read_csv w csv_file_bytes = Inr df \<and> ''link'' \<in> set (columns df) \<and> rows df \<noteq> []
      \<and> default_index df
    \<longrightarrow> fst (run_csv_process_async w csv_file_bytes s0)
        \<and> csv_overall_progress (snd (run_csv_process_async w csv_file_bytes s0)) = Some 100
        \<and> overall_history (trace (snd (run_csv_process_async w csv_file_bytes s0)))
            = overall_history (trace s0) @ [0]
              @ map (\<lambda>k. item_progress (length (rows df)) (int k)) [0..<length (rows df)]
              @ [100]
        \<and> requested (trace (snd (run_csv_process_async w csv_file_bytes s0)))
            = requested (trace s0)
              @ concat (map (\<lambda>indexed_row.
                               (case row_get (columns df) (snd indexed_row) ''link'' of
                                  Some (Str t) \<Rightarrow>
                                    if strip (isspace (isspace_hi w)) t = [] then [] else [t]
                                | _ \<Rightarrow> []))
                          (rows df)))"
proof (intro conjI impI)
  assume "0 < n \<and> (\<forall>t. row_get cols row_data ''link'' = Some (Str t)
                 \<longrightarrow> strip (isspace (isspace_hi w)) t = [])"
  then have "0 < n" and "url_to_process w cols row_data = None"
    by (simp_all add: url_to_process_None_iff)
  then show "\<exists>s'. csv_item w cols n ready (IntLabel i, row_data) (s, k) = Inr (s', k)
          \<and> csv_overall_progress s' = Some (item_progress n i)
          \<and> overall_history (trace s') = overall_history (trace s) @ [item_progress n i]
          \<and> requested (trace s') = requested (trace s)
          \<and> saved (trace s') = saved (trace s)
          \<and> uploads (trace s') = uploads (trace s)
          \<and> flashed (trace s') = flashed (trace s)
          \<and> (\<exists>timestamp. hd (session_logs s')
                = ''['' @ timestamp @ ''] CSV Item '' @ str_int (i + 1) @ ''/''
                  @ str_int (int n) @ '': Skipped (empty or invalid URL in '' @ [CHR 0x27]
                  @ ''link'' @ [CHR 0x27] @ '' column).'')"
    by (rule csv_item_skipped)
next
  assume a: "read_csv w csv_file_bytes = Inr df \<and> ''link'' \<in> set (columns df)
      \<and> rows df \<noteq> [] \<and> default_index df"
  then have parse: "read_csv w csv_file_bytes = Inr df" and link: "''link'' \<in> set (columns df)"
    and some: "rows df \<noteq> []" and dflt: "default_index df"
    by simp_all
  note completed = run_completed [OF parse link some default_index_int_labels [OF dflt], of s0]
  show "fst (run_csv_process_async w csv_file_bytes s0)" by (rule completed(1))
  show "csv_overall_progress (snd (run_csv_process_async w csv_file_bytes s0)) = Some 100"
    by (rule completed(2))
  show "overall_history (trace (snd (run_csv_process_async w csv_file_bytes s0)))
            = overall_history (trace s0) @ [0]
              @ map (\<lambda>k. item_progress (length (rows df)) (int k)) [0..<length (rows df)]
              @ [100]"
    using completed(3) default_index_progress [OF dflt, of "length (rows df)"] by simp
  show "requested (trace (snd (run_csv_process_async w csv_file_bytes s0)))
            = requested (trace s0)
              @ concat (map (\<lambda>indexed_row.
                               (case row_get (columns df) (snd indexed_row) ''link'' of
                                  Some (Str t) \<Rightarrow>
                                    if strip (isspace (isspace_hi w)) t = [] then [] else [t]
                                | _ \<Rightarrow> []))
                          (rows df))"
    using completed(4) by (simp only: urls_to_process_cells)
qed

theorem blank_link_is_skipped_but_counted_witness:
  "(0 :: nat) < 3
   \<and> row_get (columns blank_second) [Str ''  '', Str ''second''] ''link'' = Some (Str ''  '')
   \<and> strip (isspace (isspace_hi (calm_world blank_second))) ''  '' = []
   \<and> (\<exists>s'. csv_item (calm_world blank_second) (columns blank_second) 3 True
               (IntLabel 1, [Str ''  '', Str ''second'']) (connected_session, 0)
             = Inr (s', 0)
          \<and> csv_overall_progress s' = Some (2345624805922133 / 35184372088832)
          \<and> overall_history (trace s') = [2345624805922133 / 35184372088832]
          \<and> requested (trace s') = []
          \<and> saved (trace s') = []
          \<and> uploads (trace s') = []
          \<and> flashed (trace s') = [])
   \<and> row_get (columns three_rows) [NaN, Str ''second''] ''link'' = Some NaN
   \<and> (\<exists>s'. csv_item (calm_world three_rows) (columns three_rows) 3 True
               (IntLabel 1, [NaN, Str ''second'']) (connected_session, 0)
             = Inr (s', 0)
          \<and> overall_history (trace s') = [2345624805922133 / 35184372088832]
          \<and> requested (trace s') = []
          \<and> saved (trace s') = []
          \<and> uploads (trace s') = []
          \<and> flashed (trace s') = [])
   \<and> read_csv (calm_world blank_second) blank_second_csv = Inr blank_second
   \<and> ''link'' \<in> set (columns blank_second)
   \<and> rows blank_second \<noteq> []
   \<and> default_index blank_second
   \<and> fst (run_csv_process_async (calm_world blank_second) blank_second_csv connected_session)
   \<and> csv_overall_progress
        (snd (run_csv_process_async (calm_world blank_second) blank_second_csv
           connected_session))
       = Some 100
   \<and> overall_history
        (trace (snd (run_csv_process_async (calm_world blank_second) blank_second_csv
           connected_session)))
       = [0, 2345624805922133 / 70368744177664, 2345624805922133 / 35184372088832, 100, 100]
   \<and> requested
        (trace (snd (run_csv_process_async (calm_world blank_second) blank_second_csv
           connected_session)))
       = [''http://h/a.txt'', ''http://h/c.txt'']"
proof -
  have cell: "row_get (columns blank_second) [Str ''  '', Str ''second''] ''link''
                = Some (Str ''  '')"
    by (simp add: blank_second_def row_get_def)
  have blank: "strip (isspace (isspace_hi (calm_world blank_second))) ''  '' = []"
    by (simp add: strip_def isspace_def ascii_space_def)
  have nan_cell: "row_get (columns three_rows) [NaN, Str ''second''] ''link'' = Some NaN"
    by (simp add: three_rows_def row_get_def)
  have parse: "read_csv (calm_world blank_second) blank_second_csv = Inr blank_second"
    by (simp add: calm_world_def)
  note at_blank =
    blank_link_is_skipped_but_counted
      [where n = 3 and w = "calm_world blank_second" and cols = "columns blank_second"
         and row_data = "[Str ''  '', Str ''second'']" and ready = True and i = 1
         and s = connected_session and k = 0 and csv_file_bytes = blank_second_csv
         and df = blank_second and ?s0.0 = connected_session]
  note at_missing =
    blank_link_is_skipped_but_counted
      [where n = 3 and w = "calm_world three_rows" and cols = "columns three_rows"
         and row_data = "[NaN, Str ''second'']" and ready = True and i = 1
         and s = connected_session and k = 0 and csv_file_bytes = three_rows_csv
         and df = three_rows and ?s0.0 = connected_session]
  have item_blank: "\<exists>s'. csv_item (calm_world blank_second) (columns blank_second) 3 True
               (IntLabel 1, [Str ''  '', Str ''second'']) (connected_session, 0)
             = Inr (s', 0)
          \<and> csv_overall_progress s' = Some (2345624805922133 / 35184372088832)
          \<and> overall_history (trace s') = [2345624805922133 / 35184372088832]
          \<and> requested (trace s') = []
          \<and> saved (trace s') = []
          \<and> uploads (trace s') = []
          \<and> flashed (trace s') = []"
  proof -
    from at_blank cell blank obtain s' where
      "csv_item (calm_world blank_second) (columns blank_second) 3 True
         (IntLabel 1, [Str ''  '', Str ''second'']) (connected_session, 0) = Inr (s', 0)"
      "csv_overall_progress s' = Some (item_progress 3 1)"
      "overall_history (trace s') = overall_history (trace connected_session) @ [item_progress 3 1]"
      "requested (trace s') = requested (trace connected_session)"
      "saved (trace s') = saved (trace connected_session)"
      "uploads (trace s') = uploads (trace connected_session)"
      "flashed (trace s') = flashed (trace connected_session)"
      by auto
    then show ?thesis
      by (simp add: fresh_session_simps item_progress_simps)
  qed
  have item_missing: "\<exists>s'. csv_item (calm_world three_rows) (columns three_rows) 3 True
               (IntLabel 1, [NaN, Str ''second'']) (connected_session, 0)
             = Inr (s', 0)
          \<and> overall_history (trace s') = [2345624805922133 / 35184372088832]
          \<and> requested (trace s') = []
          \<and> saved (trace s') = []
          \<and> uploads (trace s') = []
          \<and> flashed (trace s') = []"
  proof -
    from at_missing nan_cell obtain s' where
      "csv_item (calm_world three_rows) (columns three_rows) 3 True
         (IntLabel 1, [NaN, Str ''second'']) (connected_session, 0) = Inr (s', 0)"
      "overall_history (trace s') = overall_history (trace connected_session) @ [item_progress 3 1]"
      "requested (trace s') = requested (trace connected_session)"
      "saved (trace s') = saved (trace connected_session)"
      "uploads (trace s') = uploads (trace connected_session)"
      "flashed (trace s') = flashed (trace connected_session)"
      by auto
    then show ?thesis
      by (simp add: fresh_session_simps item_progress_simps)
  qed
  have cells: "concat (map (\<lambda>indexed_row.
                    (case row_get (columns blank_second) (snd indexed_row) ''link'' of
                       Some (Str t) \<Rightarrow>
                         if strip (isspace (isspace_hi (calm_world blank_second))) t = []
                         then [] else [t]
                     | _ \<Rightarrow> []))
               (rows blank_second)) = [''http://h/a.txt'', ''http://h/c.txt'']"
    by (simp add: blank_second_def row_get_def strip_def isspace_def ascii_space_def)
  have progress_list:
    "map (\<lambda>k. item_progress 3 (int k)) [0..<3]
       = [2345624805922133 / 70368744177664, 2345624805922133 / 35184372088832, 100]"
    by (simp add: upt_rec item_progress_simps)
  have run: "fst (run_csv_process_async (calm_world blank_second) blank_second_csv
                    connected_session)
   \<and> csv_overall_progress
        (snd (run_csv_process_async (calm_world blank_second) blank_second_csv
           connected_session))
       = Some 100
   \<and> overall_history
        (trace (snd (run_csv_process_async (calm_world blank_second) blank_second_csv
           connected_session)))
       = [0, 2345624805922133 / 70368744177664, 2345624805922133 / 35184372088832, 100, 100]
   \<and> requested
        (trace (snd (run_csv_process_async (calm_world blank_second) blank_second_csv
           connected_session)))
       = [''http://h/a.txt'', ''http://h/c.txt'']"
    using at_blank parse cells progress_list
    by (simp add: fresh_session_simps blank_second_simps)
  show ?thesis
    using cell blank item_blank nan_cell item_missing parse run
    by (simp add: blank_second_simps)
qed

section \<open>The file name taken from a URL\<close>

lemma split_on_without_sep: "sep \<notin> set s \<Longrightarrow> split_on sep s = [s]"
  by (induction s) auto

lemma strip_fixed:
  assumes "s \<noteq> []" and "\<not> sp (hd s)" and "\<not> sp (last s)"
  shows "strip sp s = s"
proof -
  have "dropWhile sp s = s"
    using assms(1,2) by (cases s) simp_all
  moreover have "dropWhile sp (rev s) = rev s"
    using assms(1,3) by (cases "rev s") (simp_all add: last_rev [symmetric] hd_rev)
  ultimately show ?thesis by (simp add: strip_def)
qed

lemma strip_subset: "set (strip sp s) \<subseteq> set s"
proof -
  have "set (dropWhile sp (rev (dropWhile sp s))) \<subseteq> set (rev (dropWhile sp s))"
    by (meson set_dropWhileD subsetI)
  also have "\<dots> \<subseteq> set s"
    using set_dropWhileD by fastforce
  finally show ?thesis by (simp add: strip_def)
qed

lemma strip_ends:
  assumes "strip sp s \<noteq> []"
  shows "\<not> sp (hd (strip sp s))" and "\<not> sp (last (strip sp s))"
proof -
  let ?a = "dropWhile sp s"
  let ?b = "dropWhile sp (rev ?a)"
  have b: "?b \<noteq> []" using assms by (simp add: strip_def)
  then have "\<not> sp (hd ?b)" by (rule hd_dropWhile)
  then show "\<not> sp (last (strip sp s))"
    using b by (simp add: strip_def last_rev)
  have a: "?a \<noteq> []"
  proof
    assume "?a = []"
    then have "?b = []" by (simp only: rev.simps dropWhile.simps)
    with b show False by blast
  qed
  then have na: "\<not> sp (hd ?a)" by (rule hd_dropWhile)
  have "hd (rev ?b) = hd ?a"
  proof -
    obtain ys where "rev ?a = ys @ ?b"
      by (metis takeWhile_dropWhile_id)
    then have "?a = rev ?b @ rev ys" by (metis rev_append rev_rev_ident)
    moreover have "rev ?b \<noteq> []" using b by simp
    ultimately show ?thesis by (metis hd_append2)
  qed
  then show "\<not> sp (hd (strip sp s))" using na by (simp add: strip_def)
qed

lemma strip_strip: "strip sp (strip sp s) = strip sp s"
proof (cases "strip sp s = []")
  case True
  have "strip sp [] = []" by (simp add: strip_def)
  then show ?thesis using True by simp
next
  case False
  then show ?thesis using strip_ends [OF False] by (intro strip_fixed)
qed

lemma not_kept: "\<not> keep_char w CHR ''/''" "\<not> keep_char w CHR ''?''"
  by (simp_all add: keep_char_def isalnum_def ascii_alnum_def)

lemma kept_name_again:
  assumes "y = strip (isspace (isspace_hi w)) z" and "\<forall>c\<in>set z. keep_char w c"
  shows "kept_name w y = y"
proof -
  have kept: "\<forall>c\<in>set y. keep_char w c"
    using assms strip_subset by fastforce
  then have "CHR ''/'' \<notin> set y" and "CHR ''?'' \<notin> set y"
    using not_kept by blast+
  then have "hd (split_on CHR ''?'' (last (split_on CHR ''/'' y))) = y"
    by (simp add: split_on_without_sep)
  moreover have "filter (keep_char w) y = y"
    using kept by simp
  ultimately show ?thesis
    using assms(1) by (simp add: kept_name_def strip_strip)
qed

lemma kept_name_idem: "kept_name w (kept_name w x) = kept_name w x"
  by (rule kept_name_again [where z = "filter (keep_char w)
        (hd (split_on CHR ''?'' (last (split_on CHR ''/'' x))))"])
     (simp_all add: kept_name_def)

lemma str_nat_digits: "set (str_nat n) \<subseteq> set ''0123456789''"
proof (induction n rule: str_nat.induct)
  case (1 n)
  have d: "digit_char (n mod 10) \<in> set ''0123456789''"
    unfolding digit_char_def by (rule nth_mem) simp
  show ?case
  proof (cases "n < 10")
    case True
    then show ?thesis using d by (subst str_nat.simps) simp
  next
    case False
    then show ?thesis using d "1.IH" by (subst str_nat.simps) simp
  qed
qed

lemma str_nat_nonempty: "str_nat n \<noteq> []"
  by (subst str_nat.simps) simp


lemma plain_literal:
  "list_all (\<lambda>c. keep_char w c \<and> \<not> isspace (isspace_hi w) c) ''csv_dl_-0123456789''"
  by (simp add: keep_char_def isalnum_def isspace_def ascii_alnum_def ascii_space_def)

lemma plain_chars:
  "c \<in> set ''csv_dl_-0123456789'' \<Longrightarrow> keep_char w c \<and> \<not> isspace (isspace_hi w) c"
  using plain_literal [of w] unfolding list_all_iff by blast

lemma literal_subsets:
  "set ''0123456789'' \<subseteq> set ''csv_dl_-0123456789''"
  "set ''csv_dl_'' \<subseteq> set ''csv_dl_-0123456789''"
  "CHR ''-'' \<in> set ''csv_dl_-0123456789''"
  "CHR ''_'' \<in> set ''csv_dl_-0123456789''"
  "set ''_'' \<subseteq> set ''csv_dl_-0123456789''"
  by simp_all

lemma str_nat_chars: "set (str_nat n) \<subseteq> set ''csv_dl_-0123456789''"
  using str_nat_digits literal_subsets(1) by (rule subset_trans)

lemma str_int_chars: "set (str_int i) \<subseteq> set ''csv_dl_-0123456789''"
proof (cases "i < 0")
  case True
  then have eq: "set (str_int i) = insert CHR ''-'' (set (str_nat (nat (- i))))"
    by (simp add: str_int_def)
  show ?thesis
    unfolding eq insert_subset using literal_subsets(3) str_nat_chars by (intro conjI)
next
  case False
  then have eq: "set (str_int i) = set (str_nat (nat i))"
    by (simp add: str_int_def)
  show ?thesis unfolding eq by (rule str_nat_chars)
qed

lemma fallback_chars:
  assumes "c \<in> set (''csv_dl_'' @ str_int now @ ''_'' @ str_int index)"
  shows "keep_char w c \<and> \<not> isspace (isspace_hi w) c"
proof -
  have "c \<in> set ''csv_dl_'' \<or> c \<in> set (str_int now) \<or> c \<in> set ''_''
          \<or> c \<in> set (str_int index)"
    using assms by (simp only: set_append Un_iff)
  then have "c \<in> set ''csv_dl_-0123456789''"
  proof (elim disjE)
    assume "c \<in> set ''csv_dl_''"
    then show ?thesis by (rule subsetD [OF literal_subsets(2)])
  next
    assume "c \<in> set (str_int now)"
    then show ?thesis by (rule subsetD [OF str_int_chars])
  next
    assume "c \<in> set ''_''"
    then show ?thesis by (rule subsetD [OF literal_subsets(5)])
  next
    assume "c \<in> set (str_int index)"
    then show ?thesis by (rule subsetD [OF str_int_chars])
  qed
  then show ?thesis by (rule plain_chars)
qed

lemma kept_name_fallback:
  "kept_name w (''csv_dl_'' @ str_int now @ ''_'' @ str_int index)
     = ''csv_dl_'' @ str_int now @ ''_'' @ str_int index"
proof -
  let ?f = "''csv_dl_'' @ str_int now @ ''_'' @ str_int index"
  have ne: "?f \<noteq> []" by simp
  have "hd ?f \<in> set ?f" and "last ?f \<in> set ?f"
    using ne by (rule hd_in_set, rule last_in_set)
  then have "\<not> isspace (isspace_hi w) (hd ?f)" and "\<not> isspace (isspace_hi w) (last ?f)"
    using fallback_chars by blast+
  then have "?f = strip (isspace (isspace_hi w)) ?f"
    using strip_fixed [OF ne] by simp
  moreover have "\<forall>c\<in>set ?f. keep_char w c"
    using fallback_chars by blast
  ultimately show ?thesis by (rule kept_name_again)
qed

text \<open>
  C8: taking the file name of a file name gives it back. For the characters kept from
  the URL (the last segment, up to the first question mark, filtered and stripped)
  this holds whether or not anything is left; for the name with its fallback, which
  is never empty, it holds for every URL, every row index, and whatever the clock
  says at the two calls.
\<close>

theorem filename_from_url_idempotent:
  "kept_name w (kept_name w url) = kept_name w url
   \<and> filename_from_csv_url w later seed (filename_from_csv_url w now seed url)
       = filename_from_csv_url w now seed url"
proof
  show "kept_name w (kept_name w url) = kept_name w url"
    by (rule kept_name_idem)
  show "filename_from_csv_url w later seed (filename_from_csv_url w now seed url)
       = filename_from_csv_url w now seed url"
  proof (cases "kept_name w url = []")
    case True
    then show ?thesis
      by (simp add: filename_from_csv_url_def kept_name_fallback del: append.simps)
  next
    case False
    then show ?thesis
      by (simp add: filename_from_csv_url_def kept_name_idem)
  qed
qed

theorem filename_from_url_idempotent_witness:
  "filename_from_csv_url (calm_world two_rows) 1700 0 ''https://host/path/name.ext?x=1''
     = ''name.ext''
   \<and> filename_from_csv_url (calm_world two_rows) 1800 0 ''name.ext'' = ''name.ext''
   \<and> filename_from_csv_url (calm_world two_rows) 1700 3 ''https://host/path/''
       = ''csv_dl_1700_3''
   \<and> filename_from_csv_url (calm_world two_rows) 1800 3 ''csv_dl_1700_3'' = ''csv_dl_1700_3''"
proof -
  have name: "filename_from_csv_url (calm_world two_rows) 1700 0
                ''https://host/path/name.ext?x=1'' = ''name.ext''"
    by (simp add: filename_from_csv_url_def kept_name_def keep_char_def isalnum_def
          ascii_alnum_def strip_def isspace_def ascii_space_def calm_world_def)
  have fallback: "filename_from_csv_url (calm_world two_rows) 1700 3 ''https://host/path/''
                    = ''csv_dl_1700_3''"
    by (simp add: filename_from_csv_url_def kept_name_def strip_def str_int_def
          str_nat.simps digit_char_def)
  show ?thesis
    using name fallback
      filename_from_url_idempotent
        [of "calm_world two_rows" "''https://host/path/name.ext?x=1''" 1800 0 1700]
      filename_from_url_idempotent
        [of "calm_world two_rows" "''https://host/path/''" 1800 3 1700]
    by simp
qed

section \<open>The caption of an upload\<close>

lemma row_get_absent: "name \<notin> set cols \<Longrightarrow> row_get cols row_data name = None"
proof -
  assume "name \<notin> set cols"
  then have "name \<notin> fst ` set (zip cols (row_data @ replicate (length cols - length row_data) NaN))"
    by (metis (no_types, lifting) imageE prod.collapse set_zip_leftD)
  then show ?thesis by (simp add: row_get_def map_of_eq_None_iff)
qed

text \<open>
  When the frame has no \<open>caption\<close> column the caption is the empty string, and a cell
  that is a \<open>str\<close> is the caption as it stands.
\<close>

lemma caption_csv_simps:
  "''caption'' \<notin> set cols \<Longrightarrow> caption_csv cols row_data = []"
  "row_get cols row_data ''caption'' = Some (Str t) \<Longrightarrow> caption_csv cols row_data = t"
  by (simp_all add: caption_csv_def row_get_absent)

text \<open>
  C4 at a manifest with the \<open>caption\<close> column in which the caption of the first row is
  the number 7 and the caption of the second row is missing, run with the session
  active, the client connected and both downloads succeeding: both files are uploaded,
  the first with the caption \<open>7.0\<close> and the second with the caption \<open>nan\<close>. Neither
  cell is a \<open>str\<close>, and neither caption is the empty string.
\<close>

theorem caption_of_non_text_cell_is_not_empty:
  "row_get (columns odd_captions) [Str ''http://h/a.txt'', Other ''7.0''] ''caption''
     = Some (Other ''7.0'')
   \<and> row_get (columns odd_captions) [Str ''http://h/b.txt'', NaN] ''caption'' = Some NaN
   \<and> uploads (trace (snd (run_csv_process_async (calm_world odd_captions) odd_captions_csv
          connected_session)))
       = [(''downloads_colab_ui_async/a.txt'', ''7.0''),
          (''downloads_colab_ui_async/b.txt'', ''nan'')]"
  by (simp add: run_csv_process_async_def Let_def calm_world_def odd_captions_def
        item_unfold is_client_ready_def fresh_session_simps url_to_process_def row_get_def
        strip_def isspace_def ascii_space_def filename_from_csv_url_def kept_name_def
        keep_char_def isalnum_def ascii_alnum_def path_join_def DOWNLOAD_FOLDER_UI_def
        caption_csv_def)

section \<open>The overall progress and the row labels\<close>

text \<open>
  A row that ends in a delimiter: the label is a string, \<open>index + 1\<close> raises, and the
  run ends with the progress at -1 before anything is requested.
\<close>

lemma trailing_delimiter_aborts:
  "\<not> fst (run_csv_process_async (calm_world trailing_delimiter) trailing_delimiter_csv
           fresh_session)
   \<and> overall_history
        (trace (snd (run_csv_process_async (calm_world trailing_delimiter)
           trailing_delimiter_csv fresh_session)))
       = [0, - 1]"
proof -
  have parse: "read_csv (calm_world trailing_delimiter) trailing_delimiter_csv
                 = Inr trailing_delimiter"
    by (simp add: calm_world_def)
  have link: "''link'' \<in> set (columns trailing_delimiter)"
    by (simp add: trailing_delimiter_def)
  have ints: "\<not> int_labels trailing_delimiter"
    by (simp add: trailing_delimiter_def int_labels_def)
  have "takeWhile (\<lambda>indexed_row. is_int_label (fst indexed_row)) (rows trailing_delimiter) = []"
    by (simp add: trailing_delimiter_def)
  then show ?thesis
    using run_aborted(1,3) [OF parse link ints, of fresh_session]
    by (simp add: fresh_session_simps)
qed

text \<open>
  With the default index the values assigned are in non-decreasing order, from 0 to 100.
\<close>

lemma progress_values_sorted:
  assumes "0 < n"
  shows "sorted ([0] @ map (\<lambda>k. item_progress n (int k)) [0..<n] @ [100])"
proof -
  let ?f = "\<lambda>k. item_progress n (int k)"
  have mono: "?f a \<le> ?f b" if "a \<le> b" for a b :: nat
    using that assms by (intro item_progress_mono) simp_all
  have inner: "sorted (map ?f [0..<n])"
  proof -
    have "sorted_wrt (\<le>) [0..<n]" by (rule sorted_upt)
    then have "sorted_wrt (\<lambda>a b. ?f a \<le> ?f b) [0..<n]"
      by (rule sorted_wrt_mono_rel [rotated]) (rule mono)
    then show ?thesis by (simp only: sorted_map)
  qed
  have low: "0 \<le> ?f k" if "k < n" for k
    using that assms by (intro item_progress_range(1)) simp_all
  have high: "?f k \<le> 100" if "k < n" for k
    using that assms by (intro item_progress_range(2)) simp_all
  show ?thesis
    using inner low high by (auto simp add: sorted_append)
qed

lemma overall_progress_default_index:
  assumes "read_csv w csv_file_bytes = Inr df"
    and "''link'' \<in> set (columns df)"
    and "rows df \<noteq> []"
    and "default_index df"
  shows "\<exists>assigned. overall_history (trace (snd (run_csv_process_async w csv_file_bytes s)))
                      = overall_history (trace s) @ assigned
           \<and> assigned = [0] @ map (\<lambda>k. item_progress (length (rows df)) (int k))
                                  [0..<length (rows df)] @ [100]
           \<and> sorted assigned"
proof -
  have "overall_history (trace (snd (run_csv_process_async w csv_file_bytes s)))
          = overall_history (trace s) @ [0]
            @ map (\<lambda>k. item_progress (length (rows df)) (int k)) [0..<length (rows df)]
            @ [100]"
    using run_completed(3) [OF assms(1-3) default_index_int_labels [OF assms(4)], of s]
      default_index_progress [OF assms(4), of "length (rows df)"]
    by simp
  moreover have "sorted ([0] @ map (\<lambda>k. item_progress (length (rows df)) (int k))
                                  [0..<length (rows df)] @ [100])"
    using assms(3) by (intro progress_values_sorted) simp
  ultimately show ?thesis by blast
qed

lemma leading_index_simps:
  "''link'' \<in> set (columns leading_index)" "rows leading_index \<noteq> []" "int_labels leading_index"
  "length (rows leading_index) = 2" "\<not> default_index leading_index"
  by (simp_all add: leading_index_def int_labels_def default_index_def upt_rec)

text \<open>
  C1 at a manifest whose data rows have one field more than the header, with the
  integers 4 and 8 in front: the run completes, and the overall progress is assigned
  0, 250, 450 and 100. The values in the loop are 100 (index + 1) / n for the row
  labels 4 and 8, not 100 k / n for the items k = 1, 2 of n = 2; they leave the range
  from 0 to 100, and the last assignment goes down from 450 to 100.
\<close>

theorem progress_with_leading_index_column:
  "read_csv (calm_world leading_index) leading_index_csv = Inr leading_index
   \<and> fst (run_csv_process_async (calm_world leading_index) leading_index_csv fresh_session)
   \<and> overall_history
        (trace (snd (run_csv_process_async (calm_world leading_index) leading_index_csv
           fresh_session)))
       = [0, 250, 450, 100]"
proof -
  have parse: "read_csv (calm_world leading_index) leading_index_csv = Inr leading_index"
    by (simp add: calm_world_def)
  have "map (\<lambda>indexed_row. label_progress 2 (fst indexed_row)) (rows leading_index) = [250, 450]"
    by (simp add: leading_index_def item_progress_simps)
  then show ?thesis
    using parse run_completed(1,3) [OF parse leading_index_simps(1-3), of fresh_session]
    by (simp add: fresh_session_simps leading_index_simps)
qed


end
